theory Spec2Isabelle
  imports Complex_Main "HOL-Library.Word"
begin

section \<open>ESP32-C3 data logger: numeric types\<close>

text \<open>
  The firmware stores measurements in C \<^verbatim>\<open>float\<close>s. A float is either not-a-number, one of
  the two infinities, or a finite value; finite values are a subset of the reals, so a
  finite float is written \<open>Fin r\<close>. Comparison of floats is exact and is modelled as such.
  Addition and division round their exact result; the rounding is the parameter \<open>rnd\<close>
  of every operation that rounds (for IEEE single precision it maps the exact result to
  the nearest float, or to an infinity on overflow). Signed zeros are not distinguished.
\<close>

datatype cfloat = NaN | NInf | Fin real | PInf

type_synonym rounding = "real \<Rightarrow> cfloat"

type_synonym time_t = int
type_synonym uint16_t = "16 word"
type_synonym uint32_t = "32 word"

fun isnan :: "cfloat \<Rightarrow> bool" where
  "isnan NaN = True"
| "isnan NInf = False"
| "isnan (Fin r) = False"
| "isnan PInf = False"

text \<open>\<open>flt a b\<close> is the C comparison \<^verbatim>\<open>a < b\<close>: false as soon as one side is NaN.\<close>

fun flt :: "cfloat \<Rightarrow> cfloat \<Rightarrow> bool" where
  "flt NaN b = False"
| "flt NInf NaN = False"
| "flt NInf NInf = False"
| "flt NInf (Fin b) = True"
| "flt NInf PInf = True"
| "flt (Fin a) NaN = False"
| "flt (Fin a) NInf = False"
| "flt (Fin a) (Fin b) = (a < b)"
| "flt (Fin a) PInf = True"
| "flt PInf b = False"

text \<open>\<open>fgt a b\<close> is the C comparison \<^verbatim>\<open>a > b\<close>.\<close>

definition fgt :: "cfloat \<Rightarrow> cfloat \<Rightarrow> bool" where
  "fgt a b = flt b a"

text \<open>\<open>fadd rnd a b\<close> is the float addition \<^verbatim>\<open>a + b\<close>.\<close>

fun fadd :: "rounding \<Rightarrow> cfloat \<Rightarrow> cfloat \<Rightarrow> cfloat" where
  "fadd rnd NaN b = NaN"
| "fadd rnd NInf NaN = NaN"
| "fadd rnd NInf NInf = NInf"
| "fadd rnd NInf (Fin b) = NInf"
| "fadd rnd NInf PInf = NaN"
| "fadd rnd (Fin a) NaN = NaN"
| "fadd rnd (Fin a) NInf = NInf"
| "fadd rnd (Fin a) (Fin b) = rnd (a + b)"
| "fadd rnd (Fin a) PInf = PInf"
| "fadd rnd PInf NaN = NaN"
| "fadd rnd PInf NInf = NaN"
| "fadd rnd PInf (Fin b) = PInf"
| "fadd rnd PInf PInf = PInf"

text \<open>
  \<open>fdiv_count rnd x n\<close> is \<^verbatim>\<open>x / n\<close> for a float \<open>x\<close> and an unsigned counter \<open>n\<close>: the
  counter is converted to float (exactly, below \<open>2^24\<close>) and divides \<open>x\<close>. Division by a
  zero counter follows IEEE: \<open>0/0\<close> is NaN, anything else an infinity.
\<close>

fun fdiv_count :: "rounding \<Rightarrow> cfloat \<Rightarrow> nat \<Rightarrow> cfloat" where
  "fdiv_count rnd NaN n = NaN"
| "fdiv_count rnd NInf n = NInf"
| "fdiv_count rnd PInf n = PInf"
| "fdiv_count rnd (Fin a) n =
     (if n = 0 then (if a = 0 then NaN else if 0 < a then PInf else NInf)
      else rnd (a / real n))"

section \<open>RawReading.h\<close>

record RawReading =
  timestamp :: time_t
  ds18b20_temp :: cfloat
  sht40_temp :: cfloat
  sht40_humidity :: cfloat
  sen0193_moisture_raw :: cfloat

text \<open>The constructor \<^verbatim>\<open>RawReading()\<close>: timestamp 0, every channel NaN.\<close>

definition RawReading_init :: RawReading where
  "RawReading_init = \<lparr>timestamp = 0, ds18b20_temp = NaN, sht40_temp = NaN,
     sht40_humidity = NaN, sen0193_moisture_raw = NaN\<rparr>"

record AggregatedData =
  start_timestamp :: time_t
  end_timestamp :: time_t
  sample_count :: uint16_t
  ds18b20_avg :: cfloat
  ds18b20_min :: cfloat
  ds18b20_max :: cfloat
  sht40_temp_avg :: cfloat
  sht40_temp_min :: cfloat
  sht40_temp_max :: cfloat
  sht40_hum_avg :: cfloat
  sht40_hum_min :: cfloat
  sht40_hum_max :: cfloat
  soil_moisture_avg :: cfloat
  soil_moisture_min :: cfloat
  soil_moisture_max :: cfloat

record SystemStatus =
  uptime_seconds :: uint32_t
  free_heap :: uint32_t
  min_free_heap :: uint32_t
  wifi_connected :: bool
  mqtt_connected :: bool
  sd_card_ok :: bool
  total_readings :: uint32_t
  failed_readings :: uint32_t
  sd_write_errors :: uint32_t
  mqtt_errors :: uint32_t

definition SystemStatus_init :: SystemStatus where
  "SystemStatus_init = \<lparr>uptime_seconds = 0, free_heap = 0, min_free_heap = 0,
     wifi_connected = False, mqtt_connected = False, sd_card_ok = False,
     total_readings = 0, failed_readings = 0, sd_write_errors = 0, mqtt_errors = 0\<rparr>"

section \<open>Config.h\<close>

definition RAW_READING_QUEUE_SIZE :: nat where
  "RAW_READING_QUEUE_SIZE = 60"

definition AGGREGATED_DATA_QUEUE_SIZE :: nat where
  "AGGREGATED_DATA_QUEUE_SIZE = 10"

section \<open>AggregationTask.cpp: RunningStats\<close>

record RunningStats =
  minVal :: cfloat
  maxVal :: cfloat
  sumVal :: cfloat
  countVal :: uint32_t

text \<open>The constructor and \<^verbatim>\<open>reset()\<close> set the same four values.\<close>

definition reset :: RunningStats where
  "reset = \<lparr>minVal = PInf, maxVal = NInf, sumVal = Fin 0, countVal = 0\<rparr>"

definition addValue :: "rounding \<Rightarrow> RunningStats \<Rightarrow> cfloat \<Rightarrow> RunningStats" where
  "addValue rnd s v =
     (if \<not> isnan v then
        \<lparr>minVal = (if flt v (minVal s) then v else minVal s),
         maxVal = (if fgt v (maxVal s) then v else maxVal s),
         sumVal = fadd rnd (sumVal s) v,
         countVal = countVal s + 1\<rparr>
      else s)"

definition getMin :: "RunningStats \<Rightarrow> cfloat" where
  "getMin s = (if 0 < countVal s then minVal s else NaN)"

definition getMax :: "RunningStats \<Rightarrow> cfloat" where
  "getMax s = (if 0 < countVal s then maxVal s else NaN)"

definition getAvg :: "rounding \<Rightarrow> RunningStats \<Rightarrow> cfloat" where
  "getAvg rnd s =
     (if 0 < countVal s then fdiv_count rnd (sumVal s) (unat (countVal s)) else NaN)"

section \<open>AggregationTask.cpp: aggregationTask\<close>

text \<open>
  The variables of \<^verbatim>\<open>aggregationTask\<close> that live across iterations of its endless loop:
  the four accumulators and the two window bounds.
\<close>

record AggState =
  ds18b20Stats :: RunningStats
  sht40TempStats :: RunningStats
  sht40HumStats :: RunningStats
  soilMoistureStats :: RunningStats
  windowStartTime :: time_t
  windowEndTime :: time_t

definition AggState_init :: AggState where
  "AggState_init = \<lparr>ds18b20Stats = reset, sht40TempStats = reset, sht40HumStats = reset,
     soilMoistureStats = reset, windowStartTime = 0, windowEndTime = 0\<rparr>"

text \<open>
  The body of the drain loop, run once for every reading that \<^verbatim>\<open>xQueueReceive\<close> hands
  over; the second component is the local counter \<^verbatim>\<open>readingsCollected\<close>.
\<close>

definition collectReading ::
  "rounding \<Rightarrow> AggState \<times> uint32_t \<Rightarrow> RawReading \<Rightarrow> AggState \<times> uint32_t" where
  "collectReading rnd sn r =
     (case sn of (s, n) \<Rightarrow>
       (\<lparr>ds18b20Stats = addValue rnd (ds18b20Stats s) (ds18b20_temp r),
         sht40TempStats = addValue rnd (sht40TempStats s) (sht40_temp r),
         sht40HumStats = addValue rnd (sht40HumStats s) (sht40_humidity r),
         soilMoistureStats = addValue rnd (soilMoistureStats s) (sen0193_moisture_raw r),
         windowStartTime = (if windowStartTime s = 0 then timestamp r else windowStartTime s),
         windowEndTime = timestamp r\<rparr>,
        n + 1))"

text \<open>The record built in step 2 from the accumulators and the counter.\<close>

definition buildAggregatedData :: "rounding \<Rightarrow> AggState \<Rightarrow> uint32_t \<Rightarrow> AggregatedData" where
  "buildAggregatedData rnd s n =
     \<lparr>start_timestamp = windowStartTime s,
      end_timestamp = windowEndTime s,
      sample_count = ucast n,
      ds18b20_avg = getAvg rnd (ds18b20Stats s),
      ds18b20_min = getMin (ds18b20Stats s),
      ds18b20_max = getMax (ds18b20Stats s),
      sht40_temp_avg = getAvg rnd (sht40TempStats s),
      sht40_temp_min = getMin (sht40TempStats s),
      sht40_temp_max = getMax (sht40TempStats s),
      sht40_hum_avg = getAvg rnd (sht40HumStats s),
      sht40_hum_min = getMin (sht40HumStats s),
      sht40_hum_max = getMax (sht40HumStats s),
      soil_moisture_avg = getAvg rnd (soilMoistureStats s),
      soil_moisture_min = getMin (soilMoistureStats s),
      soil_moisture_max = getMax (soilMoistureStats s)\<rparr>"

text \<open>
  One iteration of the task loop on the readings \<open>rs\<close> that the drain loop receives, in
  queue order. The result is the state kept for the next iteration and the record handed
  to \<^verbatim>\<open>xQueueSend\<close>, if any: with no reading collected nothing is built and nothing is
  reset.
\<close>

definition aggregationCycle ::
  "rounding \<Rightarrow> AggState \<Rightarrow> RawReading list \<Rightarrow> AggState \<times> AggregatedData option" where
  "aggregationCycle rnd s0 rs =
     (case foldl (collectReading rnd) (s0, 0) rs of (s, n) \<Rightarrow>
        if 0 < n then (AggState_init, Some (buildAggregatedData rnd s n))
        else (s, None))"

text \<open>
  The endless loop of the task over the successive windows of readings: the records it
  hands to the queue, or \<open>None\<close> for a window without readings.
\<close>

fun aggregationTask :: "rounding \<Rightarrow> AggState \<Rightarrow> RawReading list list \<Rightarrow> AggregatedData option list" where
  "aggregationTask rnd s [] = []"
| "aggregationTask rnd s (rs # windows) =
     (case aggregationCycle rnd s rs of
        (s', out) \<Rightarrow> out # aggregationTask rnd s' windows)"

section \<open>Statistics of a window, as the specification words them\<close>

text \<open>
  The values of one channel that count: the readings that are not NaN, in arrival order.
\<close>

definition non_nan :: "cfloat list \<Rightarrow> cfloat list" where
  "non_nan xs = filter (\<lambda>v. \<not> isnan v) xs"

text \<open>
  The mean of the values in float arithmetic: their sum, accumulated from \<open>0.0\<close> in
  arrival order, divided by their number.
\<close>

definition float_mean :: "rounding \<Rightarrow> cfloat list \<Rightarrow> cfloat" where
  "float_mean rnd vs = fdiv_count rnd (foldl (fadd rnd) (Fin 0) vs) (length vs)"

text \<open>A true minimum (maximum) is one of the values, and no value lies below (above) it.\<close>

definition is_minimum :: "cfloat \<Rightarrow> cfloat list \<Rightarrow> bool" where
  "is_minimum m vs = (m \<in> set vs \<and> (\<forall>v\<in>set vs. \<not> flt v m))"

definition is_maximum :: "cfloat \<Rightarrow> cfloat list \<Rightarrow> bool" where
  "is_maximum m vs = (m \<in> set vs \<and> (\<forall>v\<in>set vs. \<not> fgt v m))"

text \<open>
  What the record must hold for a channel whose readings were \<open>xs\<close>: three NaNs when no
  reading counts, the mean, minimum and maximum of those that count otherwise.
\<close>

definition channel_stats_ok ::
  "rounding \<Rightarrow> cfloat list \<Rightarrow> cfloat \<Rightarrow> cfloat \<Rightarrow> cfloat \<Rightarrow> bool" where
  "channel_stats_ok rnd xs avg mn mx =
     (if non_nan xs = [] then isnan avg \<and> isnan mn \<and> isnan mx
      else avg = float_mean rnd (non_nan xs) \<and> is_minimum mn (non_nan xs)
           \<and> is_maximum mx (non_nan xs))"

text \<open>
  A window of three readings, one second apart; the first temperature channel reads
  20.0, 22.0 and NaN, the second one never reads.
\<close>

definition sample3 :: "RawReading list" where
  "sample3 =
     [\<lparr>timestamp = 1700000000, ds18b20_temp = Fin 20, sht40_temp = NaN,
       sht40_humidity = Fin 40, sen0193_moisture_raw = Fin 2000\<rparr>,
      \<lparr>timestamp = 1700000001, ds18b20_temp = Fin 22, sht40_temp = NaN,
       sht40_humidity = Fin 41, sen0193_moisture_raw = Fin 2002\<rparr>,
      \<lparr>timestamp = 1700000002, ds18b20_temp = NaN, sht40_temp = NaN,
       sht40_humidity = Fin 45, sen0193_moisture_raw = NaN\<rparr>]"

text \<open>
  A window of two readings in which the clock stepped back by 100 s between them (the
  time-sync task corrected it).
\<close>

definition backstep2 :: "RawReading list" where
  "backstep2 =
     [\<lparr>timestamp = 1700000100, ds18b20_temp = Fin 20, sht40_temp = NaN,
       sht40_humidity = NaN, sen0193_moisture_raw = NaN\<rparr>,
      \<lparr>timestamp = 1700000000, ds18b20_temp = Fin 21, sht40_temp = NaN,
       sht40_humidity = NaN, sen0193_moisture_raw = NaN\<rparr>]"

section \<open>FreeRTOS queues\<close>

text \<open>
  Modelled from the spec: the FreeRTOS kernel is not under \<^verbatim>\<open>src/\<close>; the specification
  fixes both queues as bounded, strictly first-in first-out, with non-blocking receives
  and a front insertion for retries. A queue is the list of its items, head first, and
  its capacity is a parameter of every send. Each call is one atomic step: a receive
  with no item and a send with no free slot fail when their wait ends.
\<close>

definition xQueueReceive :: "'a list \<Rightarrow> ('a \<times> 'a list) option" where
  "xQueueReceive q = (case q of [] \<Rightarrow> None | x # xs \<Rightarrow> Some (x, xs))"

definition xQueueSend :: "nat \<Rightarrow> 'a list \<Rightarrow> 'a \<Rightarrow> bool \<times> 'a list" where
  "xQueueSend cap q x = (if length q < cap then (True, q @ [x]) else (False, q))"

definition xQueueSendToFront :: "nat \<Rightarrow> 'a list \<Rightarrow> 'a \<Rightarrow> bool \<times> 'a list" where
  "xQueueSendToFront cap q x = (if length q < cap then (True, x # q) else (False, q))"

section \<open>CloudTask.cpp: cloudUploadTask\<close>

text \<open>The two globals that the storage task and the upload task share.\<close>

record Shared =
  aggregatedDataQueue :: "AggregatedData list"
  systemStatus :: SystemStatus

text \<open>
  What an upload cycle reads and writes: the shared stats queue and status record, the
  task's own counters, and two observation logs that the code does not hold: the records
  handed to \<^verbatim>\<open>publishDataToMQTT\<close>, and those whose publish returned true.
\<close>

record UploadState = Shared +
  itemsUploaded :: uint32_t
  successfulUploads :: uint32_t
  failedUploads :: uint32_t
  attempted :: "AggregatedData list"
  published :: "AggregatedData list"

text \<open>
  What the two other tasks, both of higher priority, do to the stats queue while the
  upload task is inside \<^verbatim>\<open>publishDataToMQTT\<close>: \<^verbatim>\<open>aggregationTask\<close> sends a record, which
  is appended if a slot is free and lost otherwise, and \<^verbatim>\<open>loggingTask\<close> receives the
  head of the queue, or goes on waiting when the queue is empty.
\<close>

datatype queue_event = Sent AggregatedData | Taken

fun queue_step :: "AggregatedData list \<Rightarrow> queue_event \<Rightarrow> AggregatedData list" where
  "queue_step q (Sent x) = snd (xQueueSend AGGREGATED_DATA_QUEUE_SIZE q x)"
| "queue_step q Taken = (case xQueueReceive q of None \<Rightarrow> q | Some (x, q') \<Rightarrow> q')"

definition meanwhile :: "AggregatedData list \<Rightarrow> queue_event list \<Rightarrow> AggregatedData list" where
  "meanwhile q evs = foldl queue_step q evs"

text \<open>The branch taken when \<^verbatim>\<open>publishDataToMQTT(data)\<close> returns true.\<close>

definition publishSucceeded :: "AggregatedData \<Rightarrow> UploadState \<Rightarrow> UploadState" where
  "publishSucceeded d s =
     s\<lparr>itemsUploaded := itemsUploaded s + 1,
       successfulUploads := successfulUploads s + 1,
       published := published s @ [d]\<rparr>"

text \<open>
  The branch taken when it returns false: two counters, then \<^verbatim>\<open>xQueueSendToFront\<close> with
  a zero wait, whose result is not looked at, then \<^verbatim>\<open>break\<close>.
\<close>

definition publishFailed :: "AggregatedData \<Rightarrow> UploadState \<Rightarrow> UploadState" where
  "publishFailed d s =
     s\<lparr>failedUploads := failedUploads s + 1,
       systemStatus := (systemStatus s)\<lparr>mqtt_errors := mqtt_errors (systemStatus s) + 1\<rparr>,
       aggregatedDataQueue :=
         snd (xQueueSendToFront AGGREGATED_DATA_QUEUE_SIZE (aggregatedDataQueue s) d)\<rparr>"

text \<open>
  One iteration of the drain loop. \<open>None\<close>: the receive found the queue empty and the
  loop is left. Otherwise the record \<open>d\<close> is taken off the queue and published; \<open>ok\<close> is
  what the publish returns and \<open>evs\<close> what the other tasks did to the queue meanwhile.
  The boolean of the result tells whether the loop goes on.
\<close>

definition uploadIteration ::
  "bool \<Rightarrow> queue_event list \<Rightarrow> UploadState \<Rightarrow> (bool \<times> UploadState) option" where
  "uploadIteration ok evs s =
     (case xQueueReceive (aggregatedDataQueue s) of
        None \<Rightarrow> None
      | Some (d, q) \<Rightarrow>
          let s1 = s\<lparr>aggregatedDataQueue := meanwhile q evs, attempted := attempted s @ [d]\<rparr>
          in Some (if ok then (True, publishSucceeded d s1) else (False, publishFailed d s1)))"

text \<open>
  The drain loop, driven by a script that gives, for each publish in turn, its result and
  the events in the queue during it. The loop ends when the queue is empty or a publish fails; the
  result is \<open>None\<close> only if the script is too short to tell how the next publish ends.
\<close>

fun uploadLoop ::
  "(bool \<times> queue_event list) list \<Rightarrow> UploadState \<Rightarrow> UploadState option" where
  "uploadLoop [] s = (if aggregatedDataQueue s = [] then Some s else None)"
| "uploadLoop ((ok, evs) # script) s =
     (case uploadIteration ok evs s of
        None \<Rightarrow> Some s
      | Some (True, s') \<Rightarrow> uploadLoop script s'
      | Some (False, s') \<Rightarrow> Some s')"

text \<open>
  A script of \<open>n\<close> successful publishes during which no other task touches the queue.
\<close>

definition all_succeed :: "nat \<Rightarrow> (bool \<times> queue_event list) list" where
  "all_succeed n = replicate n (True, [])"

text \<open>
  One whole cycle of the task: WiFi, MQTT, drain, disconnect. A cycle whose WiFi or MQTT
  connection fails leaves the queue as it is.
\<close>

definition uploadCycle ::
  "bool \<Rightarrow> bool \<Rightarrow> (bool \<times> queue_event list) list \<Rightarrow> UploadState \<Rightarrow> UploadState option" where
  "uploadCycle wifiConnected mqttConnected script s =
     (let s1 = s\<lparr>systemStatus := (systemStatus s)\<lparr>wifi_connected := wifiConnected\<rparr>\<rparr> in
      if \<not> wifiConnected then Some s1
      else
        let s2 = s1\<lparr>systemStatus := (systemStatus s1)\<lparr>mqtt_connected := mqttConnected\<rparr>\<rparr> in
        if \<not> mqttConnected then
          Some (s2\<lparr>failedUploads := failedUploads s2 + 1,
                  systemStatus := (systemStatus s2)
                    \<lparr>mqtt_errors := mqtt_errors (systemStatus s2) + 1\<rparr>\<rparr>)
        else
          map_option
            (\<lambda>s3. s3\<lparr>systemStatus := (systemStatus s3)\<lparr>mqtt_connected := False\<rparr>\<rparr>)
            (uploadLoop script (s2\<lparr>itemsUploaded := 0\<rparr>)))"

text \<open>
  Example data: the record of a one-minute window starting at \<open>t\<close>, and an upload state
  with a given queue and everything else zero or empty.
\<close>

definition window_record :: "time_t \<Rightarrow> AggregatedData" where
  "window_record t =
     \<lparr>start_timestamp = t, end_timestamp = t + 59, sample_count = 60,
      ds18b20_avg = Fin 21, ds18b20_min = Fin 20, ds18b20_max = Fin 22,
      sht40_temp_avg = Fin 21, sht40_temp_min = Fin 20, sht40_temp_max = Fin 22,
      sht40_hum_avg = Fin 40, sht40_hum_min = Fin 39, sht40_hum_max = Fin 41,
      soil_moisture_avg = NaN, soil_moisture_min = NaN, soil_moisture_max = NaN\<rparr>"

definition upload_state :: "AggregatedData list \<Rightarrow> UploadState" where
  "upload_state q =
     \<lparr>aggregatedDataQueue = q, systemStatus = SystemStatus_init, itemsUploaded = 0,
      successfulUploads = 0, failedUploads = 0, attempted = [], published = []\<rparr>"

text \<open>Further records, one per minute: eight from 1700000120 on, and nine from 1700000060 on.\<close>

definition eight :: "AggregatedData list" where
  "eight = map (\<lambda>k. window_record (1700000120 + 60 * int k)) [0..<8]"

definition nine :: "AggregatedData list" where
  "nine = window_record 1700000060 # eight"

section \<open>Printing\<close>

text \<open>
  Modelled from the spec: the C library's \<^verbatim>\<open>printf\<close> is not under \<^verbatim>\<open>src/\<close>. Integers
  print in decimal (\<^verbatim>\<open>%d\<close>, \<^verbatim>\<open>%ld\<close>), zero-padded to a width for \<^verbatim>\<open>%04d\<close> and \<^verbatim>\<open>%02d\<close>.
  The fixed-precision float conversion \<^verbatim>\<open>%.<p>f\<close> is the parameter \<open>printf_f\<close> of the
  functions that print floats: \<open>printf_f p v\<close> is the text for the value \<open>v\<close> with \<open>p\<close>
  decimals.
\<close>

definition digit_char :: "nat \<Rightarrow> char" where
  "digit_char n = ''0123456789'' ! n"

fun dec_nat :: "nat \<Rightarrow> string" where
  "dec_nat n = (if n < 10 then [digit_char n] else dec_nat (n div 10) @ [digit_char (n mod 10)])"

declare dec_nat.simps [simp del]

definition dec_int :: "int \<Rightarrow> string" where
  "dec_int i = (if i < 0 then CHR ''-'' # dec_nat (nat (- i)) else dec_nat (nat i))"

definition dec_pad :: "nat \<Rightarrow> int \<Rightarrow> string" where
  "dec_pad w i =
     (if i < 0
      then CHR ''-'' # replicate (w - 1 - length (dec_nat (nat (- i)))) CHR ''0''
             @ dec_nat (nat (- i))
      else replicate (w - length (dec_nat (nat i))) CHR ''0'' @ dec_nat (nat i))"

text \<open>The line end that \<^verbatim>\<open>println\<close> writes: carriage return, line feed.\<close>

definition CRLF :: string where
  "CRLF = [CHR 0x0D, CHR 0x0A]"

section \<open>LoggingTask.cpp\<close>

text \<open>The fields of \<^verbatim>\<open>struct tm\<close> that the file name uses; \<^verbatim>\<open>gmtime\<close> is a parameter.\<close>

record tm =
  tm_year :: int
  tm_mon :: int
  tm_mday :: int

definition SD_FILENAME_PREFIX :: string where
  "SD_FILENAME_PREFIX = ''/data_''"

text \<open>\<^verbatim>\<open>snprintf\<close> into a buffer of 32 bytes keeps at most 31 characters.\<close>

definition getLogFilename :: "(time_t \<Rightarrow> tm) \<Rightarrow> time_t \<Rightarrow> string" where
  "getLogFilename gmtime t =
     (let timeinfo = gmtime t in
      take 31 (SD_FILENAME_PREFIX @ dec_pad 4 (tm_year timeinfo + 1900)
               @ dec_pad 2 (tm_mon timeinfo + 1) @ dec_pad 2 (tm_mday timeinfo) @ ''.csv''))"

definition csvHeader :: string where
  "csvHeader = ''timestamp_start,timestamp_end,samples,''
     @ ''ds18b20_avg,ds18b20_min,ds18b20_max,''
     @ ''sht40_temp_avg,sht40_temp_min,sht40_temp_max,''
     @ ''sht40_hum_avg,sht40_hum_min,sht40_hum_max,''
     @ ''soil_avg,soil_min,soil_max''"

text \<open>
  What the card and the other tasks decide in one storage attempt: whether the card
  remounts, whether the mutex is obtained within 5 s, whether a new file can be created,
  whether the file opens for appending, and what the card keeps of a text printed to an
  open file, which is all of it on a healthy card and less on a full or a pulled one.
\<close>

record SDEnv =
  remount_ok :: bool
  mutex_taken :: bool
  create_ok :: bool
  append_ok :: bool
  stored :: "string \<Rightarrow> string"

text \<open>The card is the map from file names to file contents.\<close>

type_synonym sdcard = "string \<rightharpoonup> string"

text \<open>
  The results of \<^verbatim>\<open>println\<close> and \<^verbatim>\<open>close\<close> are not looked at: once the file is created the
  function returns true, whatever the card kept of the header.
\<close>

definition ensureFileWithHeaders :: "SDEnv \<Rightarrow> sdcard \<Rightarrow> string \<Rightarrow> bool \<times> sdcard" where
  "ensureFileWithHeaders env sd filename =
     (if sd filename \<noteq> None then (True, sd)
      else if \<not> create_ok env then (False, sd)
      else (True, sd(filename \<mapsto> stored env (csvHeader @ CRLF))))"

text \<open>
  The text of one row as the sequence of \<^verbatim>\<open>printf\<close> and \<^verbatim>\<open>print\<close> calls of
  \<^verbatim>\<open>writeDataToSD\<close> produces it, without the line end.
\<close>

definition csvRow :: "(nat \<Rightarrow> cfloat \<Rightarrow> string) \<Rightarrow> AggregatedData \<Rightarrow> string" where
  "csvRow printf_f data =
     dec_int (start_timestamp data) @ '','' @ dec_int (end_timestamp data) @ '',''
       @ dec_nat (unat (sample_count data)) @ '',''
     @ (if isnan (ds18b20_avg data) then '',,,''
        else printf_f 2 (ds18b20_avg data) @ '','' @ printf_f 2 (ds18b20_min data) @ '',''
               @ printf_f 2 (ds18b20_max data) @ '','')
     @ (if isnan (sht40_temp_avg data) then '',,,''
        else printf_f 2 (sht40_temp_avg data) @ '','' @ printf_f 2 (sht40_temp_min data) @ '',''
               @ printf_f 2 (sht40_temp_max data) @ '','')
     @ (if isnan (sht40_hum_avg data) then '',,,''
        else printf_f 1 (sht40_hum_avg data) @ '','' @ printf_f 1 (sht40_hum_min data) @ '',''
               @ printf_f 1 (sht40_hum_max data) @ '','')
     @ (if isnan (soil_moisture_avg data) then '',,''
        else printf_f 0 (soil_moisture_avg data) @ '','' @ printf_f 0 (soil_moisture_min data)
               @ '','' @ printf_f 0 (soil_moisture_max data))"

text \<open>
  The function fails only where it tests: the two opens. The results of \<^verbatim>\<open>printf\<close>,
  \<^verbatim>\<open>print\<close>, \<^verbatim>\<open>println\<close> and \<^verbatim>\<open>close\<close> are not looked at, so once the file is open
  for appending the function returns true, whatever the card kept of the row.
\<close>

definition writeDataToSD ::
  "(nat \<Rightarrow> cfloat \<Rightarrow> string) \<Rightarrow> (time_t \<Rightarrow> tm) \<Rightarrow> SDEnv \<Rightarrow> sdcard \<Rightarrow> AggregatedData
     \<Rightarrow> bool \<times> sdcard" where
  "writeDataToSD printf_f gmtime env sd data =
     (let filename = getLogFilename gmtime (start_timestamp data) in
      case ensureFileWithHeaders env sd filename of
        (False, sd1) \<Rightarrow> (False, sd1)
      | (True, sd1) \<Rightarrow>
          if \<not> append_ok env then (False, sd1)
          else (True, sd1(filename \<mapsto>
                  (case sd1 filename of None \<Rightarrow> [] | Some text \<Rightarrow> text)
                    @ stored env (csvRow printf_f data @ CRLF))))"

text \<open>
  The state of the storage task: the shared globals, the global \<^verbatim>\<open>sdCardInitialized\<close>,
  the task's two counters, the card, and the log of the records that \<^verbatim>\<open>xQueueReceive\<close>
  handed to the task.
\<close>

record LoggingState = Shared +
  sdCardInitialized :: bool
  successfulWrites :: uint32_t
  failedWrites :: uint32_t
  sdFiles :: sdcard
  received :: "AggregatedData list"

text \<open>The counting of a failed attempt, common to the three failure branches.\<close>

definition countFailedWrite :: "LoggingState \<Rightarrow> LoggingState" where
  "countFailedWrite s =
     s\<lparr>failedWrites := failedWrites s + 1,
       systemStatus := (systemStatus s)
         \<lparr>sd_write_errors := sd_write_errors (systemStatus s) + 1\<rparr>\<rparr>"

text \<open>
  One iteration of the task loop. The receive waits without limit, so with an empty
  queue nothing happens. With a record: remount the card if needed, take the mutex,
  write, count.
\<close>

definition loggingIteration ::
  "(nat \<Rightarrow> cfloat \<Rightarrow> string) \<Rightarrow> (time_t \<Rightarrow> tm) \<Rightarrow> SDEnv \<Rightarrow> LoggingState \<Rightarrow> LoggingState" where
  "loggingIteration printf_f gmtime env s =
     (case xQueueReceive (aggregatedDataQueue s) of
        None \<Rightarrow> s
      | Some (data, q) \<Rightarrow>
          let s1 = s\<lparr>aggregatedDataQueue := q, received := received s @ [data]\<rparr>;
              s2 = (if \<not> sdCardInitialized s1
                    then s1\<lparr>sdCardInitialized := remount_ok env,
                            systemStatus := (systemStatus s1)\<lparr>sd_card_ok := remount_ok env\<rparr>\<rparr>
                    else s1)
          in if \<not> sdCardInitialized s2 then countFailedWrite s2
             else if mutex_taken env then
               (case writeDataToSD printf_f gmtime env (sdFiles s2) data of
                  (True, sd) \<Rightarrow> s2\<lparr>sdFiles := sd, successfulWrites := successfulWrites s2 + 1\<rparr>
                | (False, sd) \<Rightarrow>
                    let s3 = countFailedWrite (s2\<lparr>sdFiles := sd\<rparr>)
                    in s3\<lparr>sdCardInitialized := False,
                          systemStatus := (systemStatus s3)\<lparr>sd_card_ok := False\<rparr>\<rparr>)
             else countFailedWrite s2)"

section \<open>Storage failures, as the specification words them\<close>

text \<open>
  What happens to the attempt to store a received record, read off the card and the
  other tasks and not off what the code reports: the card does not remount, the mutex is
  not obtained, the log file cannot be created or opened, the card does not keep the
  whole of the text printed to the open file, or the row is stored.
\<close>

datatype storage_event = RemountFailed | MutexTimeout | OpenFailed | WriteLost | RowStored

definition storage_outcome ::
  "(nat \<Rightarrow> cfloat \<Rightarrow> string) \<Rightarrow> (time_t \<Rightarrow> tm) \<Rightarrow> SDEnv \<Rightarrow> LoggingState \<Rightarrow> AggregatedData
     \<Rightarrow> storage_event" where
  "storage_outcome printf_f gmtime env s data =
     (let filename = getLogFilename gmtime (start_timestamp data);
          new_file = (sdFiles s filename = None) in
      if \<not> sdCardInitialized s \<and> \<not> remount_ok env then RemountFailed
      else if \<not> mutex_taken env then MutexTimeout
      else if new_file \<and> \<not> create_ok env then OpenFailed
      else if \<not> append_ok env then OpenFailed
      else if new_file \<and> stored env (csvHeader @ CRLF) \<noteq> csvHeader @ CRLF then WriteLost
      else if stored env (csvRow printf_f data @ CRLF) \<noteq> csvRow printf_f data @ CRLF
      then WriteLost
      else RowStored)"

section \<open>Rows and fields, as the specification words them\<close>

text \<open>The fields of a line of comma-separated text.\<close>

fun csv_fields :: "string \<Rightarrow> string list" where
  "csv_fields [] = [[]]"
| "csv_fields (c # cs) =
     (if c = CHR '','' then [] # csv_fields cs
      else (case csv_fields cs of [] \<Rightarrow> [[c]] | f # fs \<Rightarrow> (c # f) # fs))"

text \<open>
  The three fields of a channel: empty when its statistics are NaN, its avg, min and max
  with \<open>p\<close> decimals otherwise.
\<close>

definition channel_fields ::
  "(nat \<Rightarrow> cfloat \<Rightarrow> string) \<Rightarrow> nat \<Rightarrow> cfloat \<Rightarrow> cfloat \<Rightarrow> cfloat \<Rightarrow> string list" where
  "channel_fields printf_f p avg mn mx =
     (if isnan avg then [[], [], []] else [printf_f p avg, printf_f p mn, printf_f p mx])"

text \<open>
  A formatter of the shape of \<^verbatim>\<open>%.<p>f\<close>, to run the row on: sign, integer digits, and
  \<open>p\<close> decimals after a point, rounded half away from zero.
\<close>

definition fixed_point :: "nat \<Rightarrow> cfloat \<Rightarrow> string" where
  "fixed_point p v =
     (case v of
        NaN \<Rightarrow> ''nan''
      | PInf \<Rightarrow> ''inf''
      | NInf \<Rightarrow> ''-inf''
      | Fin r \<Rightarrow>
          (let n = nat \<lfloor>\<bar>r\<bar> * 10 ^ p + 1 / 2\<rfloor> in
           (if r < 0 then ''-'' else [])
           @ dec_nat (n div 10 ^ p)
           @ (if p = 0 then []
              else CHR ''.'' # replicate (p - length (dec_nat (n mod 10 ^ p))) CHR ''0''
                     @ dec_nat (n mod 10 ^ p))))"

text \<open>
  Example data for the storage task: a calendar that answers 2023-11-14 for every time, a
  mounted card with no file and one record queued, and four environments: all well, the
  mutex not obtained, the file not opened for appending, and a full card that opens
  files and keeps nothing of what is printed to them.
\<close>

definition gmtime_fixed :: "time_t \<Rightarrow> tm" where
  "gmtime_fixed t = \<lparr>tm_year = 123, tm_mon = 10, tm_mday = 14\<rparr>"

definition logging_state :: "AggregatedData list \<Rightarrow> LoggingState" where
  "logging_state q =
     \<lparr>aggregatedDataQueue = q, systemStatus = SystemStatus_init\<lparr>sd_card_ok := True\<rparr>,
      sdCardInitialized = True, successfulWrites = 0, failedWrites = 0,
      sdFiles = Map.empty, received = []\<rparr>"

definition env_ok :: SDEnv where
  "env_ok = \<lparr>remount_ok = True, mutex_taken = True, create_ok = True, append_ok = True,
             stored = (\<lambda>text. text)\<rparr>"



definition env_card_full :: SDEnv where
  "env_card_full = env_ok\<lparr>stored := (\<lambda>text. [])\<rparr>"

section \<open>The stats queue between its producer and its two consumers\<close>

text \<open>
  The three places of the code that touch \<^verbatim>\<open>aggregatedDataQueue\<close>, as atomic steps of the
  tasks in any interleaving: the send of \<^verbatim>\<open>aggregationTask\<close>, the receive of
  \<^verbatim>\<open>loggingTask\<close>, and the receive of \<^verbatim>\<open>cloudUploadTask\<close> followed by the result of the
  publish (a failed one puts the record back at the front). Beside the queue the state
  logs what was sent and what each consumer was handed.
\<close>

record Pipeline =
  statsQueue :: "AggregatedData list"
  emitted :: "AggregatedData list"
  storageReceived :: "AggregatedData list"
  uploadReceived :: "AggregatedData list"
  uploadPublished :: "AggregatedData list"

definition Pipeline_init :: Pipeline where
  "Pipeline_init = \<lparr>statsQueue = [], emitted = [], storageReceived = [],
     uploadReceived = [], uploadPublished = []\<rparr>"

datatype task_step = AggregationSends AggregatedData | StorageReceives | UploadReceives bool

fun pipeline_step :: "Pipeline \<Rightarrow> task_step \<Rightarrow> Pipeline" where
  "pipeline_step p (AggregationSends data) =
     (case xQueueSend AGGREGATED_DATA_QUEUE_SIZE (statsQueue p) data of
        (True, q) \<Rightarrow> p\<lparr>statsQueue := q, emitted := emitted p @ [data]\<rparr>
      | (False, q) \<Rightarrow> p)"
| "pipeline_step p StorageReceives =
     (case xQueueReceive (statsQueue p) of
        None \<Rightarrow> p
      | Some (data, q) \<Rightarrow> p\<lparr>statsQueue := q, storageReceived := storageReceived p @ [data]\<rparr>)"
| "pipeline_step p (UploadReceives ok) =
     (case xQueueReceive (statsQueue p) of
        None \<Rightarrow> p
      | Some (data, q) \<Rightarrow>
          if ok then p\<lparr>statsQueue := q, uploadReceived := uploadReceived p @ [data],
                       uploadPublished := uploadPublished p @ [data]\<rparr>
          else p\<lparr>statsQueue := snd (xQueueSendToFront AGGREGATED_DATA_QUEUE_SIZE q data),
                 uploadReceived := uploadReceived p @ [data]\<rparr>)"

definition pipeline_run :: "task_step list \<Rightarrow> Pipeline" where
  "pipeline_run steps = foldl pipeline_step Pipeline_init steps"

section \<open>The date and time of the clock library\<close>

text \<open>
  Modelled from the spec: the clock library (\<^verbatim>\<open>RTClib.h\<close>, included by
  \<^verbatim>\<open>DS1308Sensor.h\<close>) is not under \<^verbatim>\<open>src/\<close>. The specification has timestamps in UTC
  seconds since 1970; the library's \<^verbatim>\<open>DateTime\<close> holds the six clock registers as bytes,
  the year as an offset from 2000, and \<^verbatim>\<open>unixtime()\<close> counts the days since 2000-01-01
  with a table of month lengths, turns them into seconds in 32-bit unsigned arithmetic
  and adds the seconds from 1970 to 2000. The table has eleven entries; the sum below is
  the loop of the library for a month of at most 12.
\<close>

type_synonym uint8_t = "8 word"

record DateTime =
  dt_yOff :: uint8_t
  dt_m :: uint8_t
  dt_d :: uint8_t
  dt_hh :: uint8_t
  dt_mm :: uint8_t
  dt_ss :: uint8_t

definition year :: "DateTime \<Rightarrow> nat" where
  "year dt = 2000 + unat (dt_yOff dt)"

definition daysInMonth :: "nat list" where
  "daysInMonth = [31, 28, 31, 30, 31, 30, 31, 31, 30, 31, 30]"

definition SECONDS_FROM_1970_TO_2000 :: nat where
  "SECONDS_FROM_1970_TO_2000 = 946684800"

definition date2days :: "nat \<Rightarrow> nat \<Rightarrow> nat \<Rightarrow> nat" where
  "date2days y m d =
     (let y' = (if 2000 \<le> y then y - 2000 else y);
          days = (d + sum_list (take (m - 1) daysInMonth)) mod 65536;
          days' = (if 2 < m \<and> y' mod 4 = 0 then (days + 1) mod 65536 else days)
      in nat ((int days' + 365 * int y' + (int y' + 3) div 4 - 1) mod 65536))"

definition time2ulong :: "nat \<Rightarrow> nat \<Rightarrow> nat \<Rightarrow> nat \<Rightarrow> nat" where
  "time2ulong days h m s = (((days * 24 + h) * 60 + m) * 60 + s) mod 4294967296"

definition unixtime :: "DateTime \<Rightarrow> nat" where
  "unixtime dt =
     (time2ulong (date2days (unat (dt_yOff dt) + 2000) (unat (dt_m dt)) (unat (dt_d dt)))
        (unat (dt_hh dt)) (unat (dt_mm dt)) (unat (dt_ss dt))
      + SECONDS_FROM_1970_TO_2000) mod 4294967296"

section \<open>DS1308Sensor.h: the clock as far as time synchronisation uses it\<close>

record DS1308Sensor =
  rtcFound :: bool

text \<open>
  \<^verbatim>\<open>setTime(time_t)\<close>: refused when the clock was not found, else the time is handed to
  \<^verbatim>\<open>rtc.adjust\<close>. The second component is the time written to the hardware, if any.
\<close>

definition setTime :: "DS1308Sensor \<Rightarrow> time_t \<Rightarrow> bool \<times> time_t option" where
  "setTime rtc unixTime = (if \<not> rtcFound rtc then (False, None) else (True, Some unixTime))"

text \<open>
  \<^verbatim>\<open>getUnixTime()\<close>: 0 when the clock was not found, else the Unix time of the date and
  time \<open>now\<close> that the clock chip returns.
\<close>

definition getUnixTime :: "DS1308Sensor \<Rightarrow> DateTime \<Rightarrow> time_t" where
  "getUnixTime rtc now = (if \<not> rtcFound rtc then 0 else int (unixtime now))"

section \<open>TimeSync.cpp: updateRTCFromNTP\<close>

text \<open>The conversion of an integer to \<^verbatim>\<open>int32_t\<close>: the value modulo \<open>2^32\<close>, signed.\<close>

definition to_int32 :: "int \<Rightarrow> int" where
  "to_int32 x = (x + 2147483648) mod 4294967296 - 2147483648"

text \<open>
  The two globals of the file and the log of the times written to the hardware clock.
\<close>

record TimeSyncState =
  lastSyncTime :: time_t
  initialSyncComplete :: bool
  rtcWrites :: "time_t list"

text \<open>
  \<open>sensor\<close> is what \<^verbatim>\<open>getRTCSensor()\<close> returns, \<open>now\<close> the system time that NTP set, and
  \<open>readback\<close> the date and time that the clock chip returns when it is read after the
  write.
\<close>

definition updateRTCFromNTP ::
  "DS1308Sensor option \<Rightarrow> time_t \<Rightarrow> DateTime \<Rightarrow> TimeSyncState \<Rightarrow> bool \<times> TimeSyncState" where
  "updateRTCFromNTP sensor now readback s =
     (case sensor of
        None \<Rightarrow> (False, s)
      | Some rtc \<Rightarrow>
          if now < 1577836800 then (False, s)
          else
            (case setTime rtc now of
               (False, w) \<Rightarrow> (False, s)
             | (True, w) \<Rightarrow>
                 let s1 = s\<lparr>rtcWrites := rtcWrites s @ (case w of None \<Rightarrow> [] | Some t \<Rightarrow> [t])\<rparr>;
                     rtcTime = getUnixTime rtc readback;
                     timeDiff = to_int32 \<bar>rtcTime - now\<bar>
                 in if 2 < timeDiff then (False, s1)
                    else (True, s1\<lparr>lastSyncTime := now, initialSyncComplete := True\<rparr>)))"

definition TimeSyncState_init :: TimeSyncState where
  "TimeSyncState_init = \<lparr>lastSyncTime = 0, initialSyncComplete = False, rtcWrites = []\<rparr>"

text \<open>
  Example data: the clock chip reads back 2023-11-14 22:13:21, and 2091-12-03 01:27:28.
\<close>

definition readback_next_second :: DateTime where
  "readback_next_second =
     \<lparr>dt_yOff = 23, dt_m = 11, dt_d = 14, dt_hh = 22, dt_mm = 13, dt_ss = 21\<rparr>"

definition readback_2091 :: DateTime where
  "readback_2091 = \<lparr>dt_yOff = 91, dt_m = 12, dt_d = 3, dt_hh = 1, dt_mm = 27, dt_ss = 28\<rparr>"

section \<open>The sensors\<close>

text \<open>
  \<^verbatim>\<open>DS1308Sensor::read\<close>, on the date and time \<open>now\<close> that the clock chip returns. Of the
  object only \<open>rtcFound\<close> matters here; the error text and the last time read are left out.
\<close>

definition DS1308Sensor_read :: "DS1308Sensor \<Rightarrow> DateTime \<Rightarrow> RawReading \<Rightarrow> bool \<times> RawReading" where
  "DS1308Sensor_read rtc now data =
     (if \<not> rtcFound rtc then (False, data)
      else if year now < 2020 \<or> 2100 < year now then (False, data)
      else (True, data\<lparr>timestamp := int (unixtime now)\<rparr>))"

text \<open>
  The three environmental sensors, each with what its hardware answers at this tick:
  whether the sensor was found at start, and the temperature of the DS18B20, the
  humidity and temperature event of the SHT40 if the read succeeds, the ADC samples of
  the SEN0193.
\<close>

datatype sensor =
    DS18B20Sensor bool cfloat
  | SHT40Sensor bool "(cfloat \<times> cfloat) option"
  | SEN0193Sensor bool "nat list"

text \<open>\<open>feq a b\<close> is the C comparison \<^verbatim>\<open>a == b\<close> of floats.\<close>

definition feq :: "cfloat \<Rightarrow> cfloat \<Rightarrow> bool" where
  "feq a b = (\<not> isnan a \<and> \<not> isnan b \<and> a = b)"

definition DEVICE_DISCONNECTED_C :: cfloat where
  "DEVICE_DISCONNECTED_C = Fin (- 127)"

definition SOIL_MOISTURE_SAMPLES :: nat where
  "SOIL_MOISTURE_SAMPLES = 10"

text \<open>The average of the first ten samples, summed in 32 bits and returned in 16.\<close>

definition readRawADC :: "nat list \<Rightarrow> nat" where
  "readRawADC samples =
     (sum_list (take SOIL_MOISTURE_SAMPLES samples) mod 4294967296
        div SOIL_MOISTURE_SAMPLES) mod 65536"

fun ISensor_read :: "sensor \<Rightarrow> RawReading \<Rightarrow> bool \<times> RawReading" where
  "ISensor_read (DS18B20Sensor sensorFound tempC) data =
     (if \<not> sensorFound then (False, data)
      else if feq tempC DEVICE_DISCONNECTED_C then (False, data)
      else if flt tempC (Fin (- 55)) \<or> fgt tempC (Fin 125) then (False, data)
      else (True, data\<lparr>ds18b20_temp := tempC\<rparr>))"
| "ISensor_read (SHT40Sensor sensorFound event) data =
     (if \<not> sensorFound then (False, data)
      else case event of
        None \<Rightarrow> (False, data)
      | Some (humidity, temp) \<Rightarrow>
          if isnan temp \<or> flt temp (Fin (- 40)) \<or> fgt temp (Fin 125) then (False, data)
          else if isnan humidity \<or> flt humidity (Fin 0) \<or> fgt humidity (Fin 100)
          then (False, data)
          else (True, data\<lparr>sht40_temp := temp, sht40_humidity := humidity\<rparr>))"
| "ISensor_read (SEN0193Sensor initialized samples) data =
     (if \<not> initialized then (False, data)
      else (True, data\<lparr>sen0193_moisture_raw := Fin (real (readRawADC samples))\<rparr>))"

section \<open>SensorTask.cpp: sensorReadingTask\<close>

record SensorTaskState =
  rawReadingQueue :: "RawReading list"
  sensorStatus :: SystemStatus
  successCount :: uint32_t
  failureCount :: uint32_t

text \<open>The counting of a tick whose reading is not enqueued.\<close>

definition countFailedReading :: "SensorTaskState \<Rightarrow> SensorTaskState" where
  "countFailedReading s =
     s\<lparr>failureCount := failureCount s + 1,
       sensorStatus := (sensorStatus s)
         \<lparr>failed_readings := failed_readings (sensorStatus s) + 1\<rparr>\<rparr>"

text \<open>
  Step 1 of a tick: the timestamp. The result is whether the reading is valid, and the
  reading; a failed clock read sets the timestamp to 0.
\<close>

definition readTimestamp :: "DS1308Sensor option \<Rightarrow> DateTime \<Rightarrow> RawReading \<Rightarrow> bool \<times> RawReading" where
  "readTimestamp rtcSensor now reading =
     (case rtcSensor of
        None \<Rightarrow> (False, reading\<lparr>timestamp := 0\<rparr>)
      | Some rtc \<Rightarrow>
          (case DS1308Sensor_read rtc now reading of
             (True, r) \<Rightarrow> (True, r)
           | (False, r) \<Rightarrow> (False, r\<lparr>timestamp := 0\<rparr>)))"

text \<open>Step 2: every active sensor reads into the same reading; a failure is skipped.\<close>

definition readSensors :: "sensor list \<Rightarrow> RawReading \<Rightarrow> RawReading" where
  "readSensors activeSensors reading =
     foldl (\<lambda>r sensor. snd (ISensor_read sensor r)) reading activeSensors"

text \<open>One tick of the task: timestamp, sensors, then the non-blocking send if valid.\<close>

definition sensorReadingIteration ::
  "DS1308Sensor option \<Rightarrow> DateTime \<Rightarrow> sensor list \<Rightarrow> SensorTaskState \<Rightarrow> SensorTaskState" where
  "sensorReadingIteration rtcSensor now activeSensors s =
     (case readTimestamp rtcSensor now RawReading_init of
        (readingValid, reading1) \<Rightarrow>
          let s1 = (if readingValid then s else s\<lparr>failureCount := failureCount s + 1\<rparr>);
              reading = readSensors activeSensors reading1
          in if readingValid then
               (case xQueueSend RAW_READING_QUEUE_SIZE (rawReadingQueue s1) reading of
                  (True, q) \<Rightarrow>
                    s1\<lparr>rawReadingQueue := q, successCount := successCount s1 + 1,
                       sensorStatus := (sensorStatus s1)
                         \<lparr>total_readings := total_readings (sensorStatus s1) + 1\<rparr>\<rparr>
                | (False, q) \<Rightarrow> countFailedReading s1)
             else countFailedReading s1)"

text \<open>
  Example data: the clock reads 2023-11-14 22:13:20, three sensors answer, and the task
  starts with an empty queue.
\<close>

definition clock_reading :: DateTime where
  "clock_reading = \<lparr>dt_yOff = 23, dt_m = 11, dt_d = 14, dt_hh = 22, dt_mm = 13, dt_ss = 20\<rparr>"

definition three_sensors :: "sensor list" where
  "three_sensors =
     [DS18B20Sensor True (Fin 21), SHT40Sensor True (Some (Fin 40, Fin 22)),
      SEN0193Sensor True (replicate 10 2000)]"

definition sensor_task_state :: SensorTaskState where
  "sensor_task_state = \<lparr>rawReadingQueue = [], sensorStatus = SystemStatus_init,
     successCount = 0, failureCount = 0\<rparr>"

section \<open>The JSON serialisers\<close>

text \<open>
  Modelled from the spec: the Arduino \<^verbatim>\<open>String\<close> class is not under \<^verbatim>\<open>src/\<close>.
  \<^verbatim>\<open>String(value, decimalPlaces)\<close> is the text of a float with that number of decimals,
  and for a NaN the text \<^verbatim>\<open>nan\<close>; the conversion of the other values is the parameter
  \<open>dtostrf\<close>. \<^verbatim>\<open>String\<close> of an integer is its decimal text.
\<close>

definition String_float :: "(nat \<Rightarrow> cfloat \<Rightarrow> string) \<Rightarrow> cfloat \<Rightarrow> nat \<Rightarrow> string" where
  "String_float dtostrf val decimalPlaces =
     (if isnan val then ''nan'' else dtostrf decimalPlaces val)"

text \<open>
  The three members that both serialisers write for a channel, between the braces that
  follow the channel's key.
\<close>

definition statsMembers ::
  "(nat \<Rightarrow> cfloat \<Rightarrow> string) \<Rightarrow> nat \<Rightarrow> cfloat \<Rightarrow> cfloat \<Rightarrow> cfloat \<Rightarrow> string" where
  \<open>statsMembers dtostrf p avg mn mx =
     ''"avg":'' @ String_float dtostrf avg p @ '',''
     @ ''"min":'' @ String_float dtostrf mn p @ '',''
     @ ''"max":'' @ String_float dtostrf mx p\<close>

text \<open>
  The payload that \<^verbatim>\<open>publishDataToMQTT\<close> builds and hands to \<^verbatim>\<open>mqttClient.publish\<close>;
  \<open>client_id\<close> is \<^verbatim>\<open>MQTT_CLIENT_ID\<close>.
\<close>

definition mqttPayload :: "string \<Rightarrow> (nat \<Rightarrow> cfloat \<Rightarrow> string) \<Rightarrow> AggregatedData \<Rightarrow> string" where
  \<open>mqttPayload client_id dtostrf data =
     ''{''
     @ ''"device":"'' @ client_id @ ''",''
     @ ''"start":'' @ dec_int (start_timestamp data) @ '',''
     @ ''"end":'' @ dec_int (end_timestamp data) @ '',''
     @ ''"samples":'' @ dec_nat (unat (sample_count data)) @ '',''
     @ ''"ds18b20":{''
     @ statsMembers dtostrf 2 (ds18b20_avg data) (ds18b20_min data) (ds18b20_max data)
     @ ''},''
     @ ''"sht40_temp":{''
     @ statsMembers dtostrf 2
         (sht40_temp_avg data) (sht40_temp_min data) (sht40_temp_max data)
     @ ''},''
     @ ''"sht40_humidity":{''
     @ statsMembers dtostrf 1 (sht40_hum_avg data) (sht40_hum_min data) (sht40_hum_max data)
     @ ''},''
     @ ''"soil_moisture":{''
     @ statsMembers dtostrf 0
         (soil_moisture_avg data) (soil_moisture_min data) (soil_moisture_max data)
     @ ''}''
     @ ''}''\<close>

text \<open>\<^verbatim>\<open>publishDataToMQTT\<close>: the result is that of the publish, given as \<open>publish\<close>.\<close>

definition publishDataToMQTT ::
  "string \<Rightarrow> (nat \<Rightarrow> cfloat \<Rightarrow> string) \<Rightarrow> (string \<Rightarrow> bool) \<Rightarrow> AggregatedData \<Rightarrow> bool" where
  "publishDataToMQTT client_id dtostrf publish data =
     publish (mqttPayload client_id dtostrf data)"

definition aggregatedDataToJSON :: "(nat \<Rightarrow> cfloat \<Rightarrow> string) \<Rightarrow> AggregatedData \<Rightarrow> string" where
  \<open>aggregatedDataToJSON dtostrf data =
     ''{''
     @ ''"start":"'' @ dec_int (start_timestamp data) @ ''",''
     @ ''"end":"'' @ dec_int (end_timestamp data) @ ''",''
     @ ''"samples":'' @ dec_nat (unat (sample_count data)) @ '',''
     @ ''"ds18b20":{''
     @ statsMembers dtostrf 2 (ds18b20_avg data) (ds18b20_min data) (ds18b20_max data)
     @ ''},''
     @ ''"sht40_temp":{''
     @ statsMembers dtostrf 2
         (sht40_temp_avg data) (sht40_temp_min data) (sht40_temp_max data)
     @ ''},''
     @ ''"sht40_hum":{''
     @ statsMembers dtostrf 1 (sht40_hum_avg data) (sht40_hum_min data) (sht40_hum_max data)
     @ ''},''
     @ ''"soil":{''
     @ statsMembers dtostrf 0
         (soil_moisture_avg data) (soil_moisture_min data) (soil_moisture_max data)
     @ ''}''
     @ ''}''\<close>

text \<open>The three members of a channel without data, as the serialisers write them.\<close>

definition nan_members :: string where
  \<open>nan_members = ''"avg":nan,"min":nan,"max":nan''\<close>

section \<open>Properties of the running statistics\<close>

text \<open>
  On floats that are not NaN the comparison \<^verbatim>\<open><\<close> is a strict linear order with the
  two infinities at its ends.
\<close>

lemma flt_irrefl: "\<not> flt a a"
  by (cases a) auto

lemma flt_trans: "flt a b \<Longrightarrow> flt b c \<Longrightarrow> flt a c"
  by (cases a; cases b; cases c) auto

lemma flt_negtrans:
  "\<not> isnan b \<Longrightarrow> \<not> flt b a \<Longrightarrow> \<not> flt c b \<Longrightarrow> \<not> flt c a"
  by (cases a; cases b; cases c) auto

lemma not_flt_PInf: "\<not> isnan v \<Longrightarrow> \<not> flt v PInf \<Longrightarrow> v = PInf"
  by (cases v) auto

lemma not_flt_NInf: "\<not> isnan v \<Longrightarrow> \<not> flt NInf v \<Longrightarrow> v = NInf"
  by (cases v) auto

text \<open>
  Folding readings into an accumulator skips the NaNs, counts and sums the others, and
  keeps in \<open>minVal\<close> and \<open>maxVal\<close> a lower and an upper bound of them that is one of
  them or the starting value.
\<close>

lemma addValue_nan: "isnan v \<Longrightarrow> addValue rnd s v = s"
  by (simp add: addValue_def)

lemma addValues_filter:
  "foldl (addValue rnd) s xs = foldl (addValue rnd) s (non_nan xs)"
  by (induction xs arbitrary: s) (simp_all add: non_nan_def addValue_nan)

lemma countVal_addValues:
  "\<forall>v\<in>set vs. \<not> isnan v \<Longrightarrow>
   countVal (foldl (addValue rnd) s vs) = countVal s + of_nat (length vs)"
  by (induction vs arbitrary: s) (simp_all add: addValue_def)

lemma sumVal_addValues:
  "\<forall>v\<in>set vs. \<not> isnan v \<Longrightarrow>
   sumVal (foldl (addValue rnd) s vs) = foldl (fadd rnd) (sumVal s) vs"
  by (induction vs arbitrary: s) (simp_all add: addValue_def)

lemma minVal_addValue_cases:
  "minVal (addValue rnd s x) = minVal s \<or> (minVal (addValue rnd s x) = x \<and> \<not> isnan x)"
  by (simp add: addValue_def)

lemma minVal_addValue_old: "\<not> flt (minVal s) (minVal (addValue rnd s x))"
  using flt_trans [of "minVal s" x "minVal s"]
  by (auto simp: addValue_def flt_irrefl)

lemma minVal_addValue_new: "\<not> flt x (minVal (addValue rnd s x))"
  by (cases "isnan x") (auto simp: addValue_def flt_irrefl, cases x, auto)

lemma minVal_addValue_nn:
  "\<not> isnan (minVal s) \<Longrightarrow> \<not> isnan (minVal (addValue rnd s x))"
  using minVal_addValue_cases [of rnd s x] by auto

lemma minVal_addValues_nn:
  "\<not> isnan (minVal s) \<Longrightarrow> \<not> isnan (minVal (foldl (addValue rnd) s vs))"
  by (induction vs arbitrary: s) (simp_all add: minVal_addValue_nn)

lemma minVal_addValues_old:
  "\<not> isnan (minVal s) \<Longrightarrow> \<not> flt (minVal s) (minVal (foldl (addValue rnd) s vs))"
proof (induction vs arbitrary: s)
  case Nil
  show ?case by (simp add: flt_irrefl)
next
  case (Cons x xs)
  have nn: "\<not> isnan (minVal (addValue rnd s x))"
    using Cons.prems by (rule minVal_addValue_nn)
  have "\<not> flt (minVal (addValue rnd s x)) (minVal (foldl (addValue rnd) (addValue rnd s x) xs))"
    using nn by (rule Cons.IH)
  with nn have "\<not> flt (minVal s) (minVal (foldl (addValue rnd) (addValue rnd s x) xs))"
    using minVal_addValue_old [of s rnd x] by (rule flt_negtrans)
  then show ?case by simp
qed

lemma minVal_addValues_lower:
  "\<not> isnan (minVal s) \<Longrightarrow> v \<in> set vs \<Longrightarrow>
   \<not> flt v (minVal (foldl (addValue rnd) s vs))"
proof (induction vs arbitrary: s)
  case Nil
  then show ?case by simp
next
  case (Cons x xs)
  have nn: "\<not> isnan (minVal (addValue rnd s x))"
    using Cons.prems(1) by (rule minVal_addValue_nn)
  show ?case
  proof (cases "v \<in> set xs")
    case True
    with nn show ?thesis by (simp add: Cons.IH)
  next
    case False
    then have "v = x" using Cons.prems(2) by simp
    then have a: "\<not> flt v (minVal (addValue rnd s x))"
      by (simp add: minVal_addValue_new)
    have b: "\<not> flt (minVal (addValue rnd s x)) (minVal (foldl (addValue rnd) (addValue rnd s x) xs))"
      using nn by (rule minVal_addValues_old)
    from nn b a have "\<not> flt v (minVal (foldl (addValue rnd) (addValue rnd s x) xs))"
      by (rule flt_negtrans)
    then show ?thesis by simp
  qed
qed

lemma minVal_addValues_mem:
  "minVal (foldl (addValue rnd) s vs) = minVal s
   \<or> minVal (foldl (addValue rnd) s vs) \<in> set (non_nan vs)"
proof (induction vs arbitrary: s)
  case Nil
  show ?case by simp
next
  case (Cons x xs)
  from Cons.IH [of "addValue rnd s x"] minVal_addValue_cases [of rnd s x]
  show ?case by (auto simp: non_nan_def)
qed

lemma maxVal_addValue_cases:
  "maxVal (addValue rnd s x) = maxVal s \<or> (maxVal (addValue rnd s x) = x \<and> \<not> isnan x)"
  by (simp add: addValue_def)

lemma maxVal_addValue_old: "\<not> flt (maxVal (addValue rnd s x)) (maxVal s)"
  using flt_trans [of "maxVal s" x "maxVal s"]
  by (auto simp: addValue_def fgt_def flt_irrefl)

lemma flt_nan_right: "isnan x \<Longrightarrow> \<not> flt a x"
  by (cases a; cases x) auto

lemma maxVal_addValue_new: "\<not> flt (maxVal (addValue rnd s x)) x"
  by (cases "isnan x") (auto simp: addValue_def fgt_def flt_irrefl flt_nan_right)

lemma maxVal_addValue_nn:
  "\<not> isnan (maxVal s) \<Longrightarrow> \<not> isnan (maxVal (addValue rnd s x))"
  using maxVal_addValue_cases [of rnd s x] by auto

lemma maxVal_addValues_old:
  "\<not> isnan (maxVal s) \<Longrightarrow> \<not> flt (maxVal (foldl (addValue rnd) s vs)) (maxVal s)"
proof (induction vs arbitrary: s)
  case Nil
  show ?case by (simp add: flt_irrefl)
next
  case (Cons x xs)
  have nn: "\<not> isnan (maxVal (addValue rnd s x))"
    using Cons.prems by (rule maxVal_addValue_nn)
  have "\<not> flt (maxVal (foldl (addValue rnd) (addValue rnd s x) xs)) (maxVal (addValue rnd s x))"
    using nn by (rule Cons.IH)
  with nn maxVal_addValue_old [of rnd s x]
  have "\<not> flt (maxVal (foldl (addValue rnd) (addValue rnd s x) xs)) (maxVal s)"
    by (rule flt_negtrans)
  then show ?case by simp
qed

lemma maxVal_addValues_upper:
  "\<not> isnan (maxVal s) \<Longrightarrow> v \<in> set vs \<Longrightarrow>
   \<not> flt (maxVal (foldl (addValue rnd) s vs)) v"
proof (induction vs arbitrary: s)
  case Nil
  then show ?case by simp
next
  case (Cons x xs)
  have nn: "\<not> isnan (maxVal (addValue rnd s x))"
    using Cons.prems(1) by (rule maxVal_addValue_nn)
  show ?case
  proof (cases "v \<in> set xs")
    case True
    with nn show ?thesis by (simp add: Cons.IH)
  next
    case False
    then have "v = x" using Cons.prems(2) by simp
    then have a: "\<not> flt (maxVal (addValue rnd s x)) v"
      by (simp add: maxVal_addValue_new)
    have b: "\<not> flt (maxVal (foldl (addValue rnd) (addValue rnd s x) xs)) (maxVal (addValue rnd s x))"
      using nn by (rule maxVal_addValues_old)
    from nn a b have "\<not> flt (maxVal (foldl (addValue rnd) (addValue rnd s x) xs)) v"
      by (rule flt_negtrans)
    then show ?thesis by simp
  qed
qed

lemma maxVal_addValues_mem:
  "maxVal (foldl (addValue rnd) s vs) = maxVal s
   \<or> maxVal (foldl (addValue rnd) s vs) \<in> set (non_nan vs)"
proof (induction vs arbitrary: s)
  case Nil
  show ?case by simp
next
  case (Cons x xs)
  from Cons.IH [of "addValue rnd s x"] maxVal_addValue_cases [of rnd s x]
  show ?case by (auto simp: non_nan_def)
qed

lemma non_nan_set: "v \<in> set (non_nan xs) \<Longrightarrow> \<not> isnan v"
  by (simp add: non_nan_def)

lemma non_nan_idem: "non_nan (non_nan xs) = non_nan xs"
  by (simp add: non_nan_def)

lemma length_non_nan: "length (non_nan xs) \<le> length xs"
  by (simp add: non_nan_def)

text \<open>From a fresh accumulator the bounds are among the values that count.\<close>

lemma minimum_from_reset:
  assumes "non_nan xs \<noteq> []"
  shows "is_minimum (minVal (foldl (addValue rnd) reset xs)) (non_nan xs)"
proof -
  let ?m = "minVal (foldl (addValue rnd) reset xs)"
  have nn: "\<not> isnan (minVal reset)" by (simp add: reset_def)
  have eq: "foldl (addValue rnd) reset xs = foldl (addValue rnd) reset (non_nan xs)"
    by (rule addValues_filter)
  have lower: "\<forall>v\<in>set (non_nan xs). \<not> flt v ?m"
    unfolding eq using nn by (simp add: minVal_addValues_lower)
  have "?m \<in> set (non_nan xs)"
  proof (cases "?m = minVal reset")
    case False
    with minVal_addValues_mem [of rnd reset xs] show ?thesis by simp
  next
    case True
    then have m: "?m = PInf" by (simp add: reset_def)
    obtain v where v: "v \<in> set (non_nan xs)" using assms by (cases "non_nan xs") auto
    then have "\<not> flt v PInf" using lower m by simp
    moreover have "\<not> isnan v" using v by (rule non_nan_set)
    ultimately have "v = PInf" by (simp add: not_flt_PInf)
    with v m show ?thesis by simp
  qed
  with lower show ?thesis by (simp add: is_minimum_def)
qed

lemma maximum_from_reset:
  assumes "non_nan xs \<noteq> []"
  shows "is_maximum (maxVal (foldl (addValue rnd) reset xs)) (non_nan xs)"
proof -
  let ?m = "maxVal (foldl (addValue rnd) reset xs)"
  have nn: "\<not> isnan (maxVal reset)" by (simp add: reset_def)
  have eq: "foldl (addValue rnd) reset xs = foldl (addValue rnd) reset (non_nan xs)"
    by (rule addValues_filter)
  have upper: "\<forall>v\<in>set (non_nan xs). \<not> flt ?m v"
    unfolding eq using nn by (simp add: maxVal_addValues_upper)
  have "?m \<in> set (non_nan xs)"
  proof (cases "?m = maxVal reset")
    case False
    with maxVal_addValues_mem [of rnd reset xs] show ?thesis by simp
  next
    case True
    then have m: "?m = NInf" by (simp add: reset_def)
    obtain v where v: "v \<in> set (non_nan xs)" using assms by (cases "non_nan xs") auto
    then have "\<not> flt NInf v" using upper m by simp
    moreover have "\<not> isnan v" using v by (rule non_nan_set)
    ultimately have "v = NInf" by (simp add: not_flt_NInf)
    with v m show ?thesis by simp
  qed
  with upper show ?thesis by (simp add: is_maximum_def fgt_def)
qed

lemma count_from_reset:
  "countVal (foldl (addValue rnd) reset xs) = of_nat (length (non_nan xs))"
proof -
  have "countVal (foldl (addValue rnd) reset (non_nan xs))
        = countVal reset + of_nat (length (non_nan xs))"
    by (rule countVal_addValues) (simp add: non_nan_def)
  moreover have "countVal reset = 0" by (simp add: reset_def)
  ultimately show ?thesis
    unfolding addValues_filter [of rnd reset xs] by simp
qed

lemma sum_from_reset:
  "sumVal (foldl (addValue rnd) reset xs) = foldl (fadd rnd) (Fin 0) (non_nan xs)"
proof -
  have "sumVal (foldl (addValue rnd) reset (non_nan xs))
        = foldl (fadd rnd) (sumVal reset) (non_nan xs)"
    by (rule sumVal_addValues) (simp add: non_nan_def)
  moreover have "sumVal reset = Fin 0" by (simp add: reset_def)
  ultimately show ?thesis
    unfolding addValues_filter [of rnd reset xs] by simp
qed

lemma unat_count32: "n < 4294967296 \<Longrightarrow> unat (of_nat n :: 32 word) = n"
  by (simp add: unat_of_nat)

lemma count32_pos: "n < 4294967296 \<Longrightarrow> (0 < (of_nat n :: 32 word)) = (n \<noteq> 0)"
  by (simp add: word_less_nat_alt unat_of_nat)

lemma channel_from_reset:
  assumes "length xs < 4294967296"
  shows "channel_stats_ok rnd xs
           (getAvg rnd (foldl (addValue rnd) reset xs))
           (getMin (foldl (addValue rnd) reset xs))
           (getMax (foldl (addValue rnd) reset xs))"
proof -
  let ?s = "foldl (addValue rnd) reset xs"
  have len: "length (non_nan xs) < 4294967296"
    using assms length_non_nan [of xs] by simp
  have pos: "(0 < countVal ?s) = (non_nan xs \<noteq> [])"
    using len by (simp add: count_from_reset count32_pos)
  have cnt: "unat (countVal ?s) = length (non_nan xs)"
    using len by (simp add: count_from_reset unat_count32)
  show ?thesis
  proof (cases "non_nan xs = []")
    case True
    with pos show ?thesis
      by (simp add: channel_stats_ok_def getAvg_def getMin_def getMax_def)
  next
    case False
    with pos cnt minimum_from_reset [OF False, of rnd] maximum_from_reset [OF False, of rnd]
    show ?thesis
      by (simp add: channel_stats_ok_def getAvg_def getMin_def getMax_def
            sum_from_reset float_mean_def)
  qed
qed

text \<open>
  The drain loop feeds each channel of the readings to its accumulator, counts the
  readings, and keeps the first nonzero and the last timestamp.
\<close>

lemma ucast16: "n < 65536 \<Longrightarrow> unat (ucast (of_nat n :: 32 word) :: 16 word) = n"
  by (simp add: unsigned_ucast_eq unsigned_of_nat take_bit_nat_eq_self)

lemma stats_fold:
  "ds18b20Stats (fst (foldl (collectReading rnd) (s, n) rs))
     = foldl (addValue rnd) (ds18b20Stats s) (map ds18b20_temp rs)"
  "sht40TempStats (fst (foldl (collectReading rnd) (s, n) rs))
     = foldl (addValue rnd) (sht40TempStats s) (map sht40_temp rs)"
  "sht40HumStats (fst (foldl (collectReading rnd) (s, n) rs))
     = foldl (addValue rnd) (sht40HumStats s) (map sht40_humidity rs)"
  "soilMoistureStats (fst (foldl (collectReading rnd) (s, n) rs))
     = foldl (addValue rnd) (soilMoistureStats s) (map sen0193_moisture_raw rs)"
  by (induction rs arbitrary: s n; simp add: collectReading_def)+

lemma collected_fold:
  "snd (foldl (collectReading rnd) (s, n) rs) = n + of_nat (length rs)"
  by (induction rs arbitrary: s n) (simp_all add: collectReading_def)

lemma windowEnd_fold:
  "windowEndTime (fst (foldl (collectReading rnd) (s, n) rs))
     = (if rs = [] then windowEndTime s else timestamp (last rs))"
  by (induction rs arbitrary: s n) (simp_all add: collectReading_def)

lemma windowStart_fold_set:
  "windowStartTime s \<noteq> 0 \<Longrightarrow>
   windowStartTime (fst (foldl (collectReading rnd) (s, n) rs)) = windowStartTime s"
  by (induction rs arbitrary: s n) (simp_all add: collectReading_def)

lemma windowStart_fold:
  "windowStartTime s = 0 \<Longrightarrow> rs \<noteq> [] \<Longrightarrow> timestamp (hd rs) \<noteq> 0 \<Longrightarrow>
   windowStartTime (fst (foldl (collectReading rnd) (s, n) rs)) = timestamp (hd rs)"
  by (cases rs) (simp_all add: windowStart_fold_set collectReading_def)

text \<open>With exact arithmetic the float mean of finite values is their arithmetic mean.\<close>

lemma float_mean_exact:
  "xs \<noteq> [] \<Longrightarrow> float_mean Fin (map Fin xs) = Fin (sum_list xs / real (length xs))"
proof -
  have "foldl (fadd Fin) (Fin a) (map Fin xs) = Fin (a + sum_list xs)" for a
    by (induction xs arbitrary: a) (simp_all add: add.assoc)
  from this [of 0] show "xs \<noteq> [] \<Longrightarrow> ?thesis"
    by (simp add: float_mean_def)
qed

lemma aggregationCycle_emits:
  assumes "rs \<noteq> []" and "length rs < 4294967296"
  shows "aggregationCycle rnd AggState_init rs =
           (AggState_init,
            Some (buildAggregatedData rnd
                   (fst (foldl (collectReading rnd) (AggState_init, 0) rs))
                   (of_nat (length rs))))"
proof -
  obtain s n where sn: "foldl (collectReading rnd) (AggState_init, 0) rs = (s, n)"
    by (cases "foldl (collectReading rnd) (AggState_init, 0) rs")
  have n: "n = of_nat (length rs)"
    using collected_fold [of rnd AggState_init 0 rs] sn by simp
  have "0 < n"
    using assms by (simp add: n count32_pos)
  then show ?thesis
    by (simp add: aggregationCycle_def sn n)
qed

text \<open>
  Every iteration of the task loop starts from fresh accumulators: the first one does by
  construction, and an iteration that starts fresh leaves them fresh, whether it emitted
  a record or found the queue empty.
\<close>

lemma aggregationCycle_state:
  assumes "length rs < 4294967296"
  shows "fst (aggregationCycle rnd AggState_init rs) = AggState_init"
proof (cases "rs = []")
  case True
  then show ?thesis by (simp add: aggregationCycle_def)
next
  case False
  with assms show ?thesis by (simp add: aggregationCycle_emits)
qed

text \<open>
  Hence the record of every window of a run is the record of that window alone, built
  from fresh accumulators.
\<close>

lemma aggregationTask_windows:
  assumes "\<forall>rs\<in>set windows. length rs < 4294967296"
  shows "aggregationTask rnd AggState_init windows
           = map (\<lambda>rs. snd (aggregationCycle rnd AggState_init rs)) windows"
  using assms
proof (induction windows)
  case Nil
  show ?case by simp
next
  case (Cons rs windows)
  then have "fst (aggregationCycle rnd AggState_init rs) = AggState_init"
    by (simp add: aggregationCycle_state)
  with Cons show ?case
    by (cases "aggregationCycle rnd AggState_init rs") simp
qed

text \<open>
  The record of one non-empty window drained into fresh accumulators.
\<close>

lemma cycle_statistics:
  assumes "rs \<noteq> []" and "length rs < 65536"
  shows "\<exists>d. snd (aggregationCycle rnd AggState_init rs) = Some d
    \<and> unat (sample_count d) = length rs
    \<and> channel_stats_ok rnd (map ds18b20_temp rs)
         (ds18b20_avg d) (ds18b20_min d) (ds18b20_max d)
    \<and> channel_stats_ok rnd (map sht40_temp rs)
         (sht40_temp_avg d) (sht40_temp_min d) (sht40_temp_max d)
    \<and> channel_stats_ok rnd (map sht40_humidity rs)
         (sht40_hum_avg d) (sht40_hum_min d) (sht40_hum_max d)
    \<and> channel_stats_ok rnd (map sen0193_moisture_raw rs)
         (soil_moisture_avg d) (soil_moisture_min d) (soil_moisture_max d)"
proof -
  let ?s = "fst (foldl (collectReading rnd) (AggState_init, 0) rs)"
  let ?d = "buildAggregatedData rnd ?s (of_nat (length rs))"
  have len: "length rs < 4294967296" using assms(2) by simp
  have emit: "snd (aggregationCycle rnd AggState_init rs) = Some ?d"
    using assms(1) len by (simp add: aggregationCycle_emits)
  have cnt: "unat (sample_count ?d) = length rs"
    using assms(2) by (simp add: buildAggregatedData_def ucast16)
  have c1: "channel_stats_ok rnd (map ds18b20_temp rs)
              (ds18b20_avg ?d) (ds18b20_min ?d) (ds18b20_max ?d)"
    using channel_from_reset [of "map ds18b20_temp rs" rnd] len
    by (simp add: buildAggregatedData_def stats_fold AggState_init_def)
  have c2: "channel_stats_ok rnd (map sht40_temp rs)
              (sht40_temp_avg ?d) (sht40_temp_min ?d) (sht40_temp_max ?d)"
    using channel_from_reset [of "map sht40_temp rs" rnd] len
    by (simp add: buildAggregatedData_def stats_fold AggState_init_def)
  have c3: "channel_stats_ok rnd (map sht40_humidity rs)
              (sht40_hum_avg ?d) (sht40_hum_min ?d) (sht40_hum_max ?d)"
    using channel_from_reset [of "map sht40_humidity rs" rnd] len
    by (simp add: buildAggregatedData_def stats_fold AggState_init_def)
  have c4: "channel_stats_ok rnd (map sen0193_moisture_raw rs)
              (soil_moisture_avg ?d) (soil_moisture_min ?d) (soil_moisture_max ?d)"
    using channel_from_reset [of "map sen0193_moisture_raw rs" rnd] len
    by (simp add: buildAggregatedData_def stats_fold AggState_init_def)
  from emit cnt c1 c2 c3 c4 show ?thesis by blast
qed

text \<open>
  Claim C2. In a run of the task over successive windows, each of fewer than 65536
  readings (the range of the record's 16-bit \<open>sample_count\<close>; the raw queue holds 60),
  every non-empty window emits a record whose \<open>sample_count\<close> is the number of readings
  drained, whatever their channels hold, and in which, for each of the four channels, avg
  is the sum of the non-NaN values divided by their number (in float arithmetic, for any
  rounding), min and max are a true minimum and a true maximum of the non-NaN values,
  and all three are NaN when the channel has no non-NaN value.
\<close>

theorem aggregation_statistics:
  assumes "\<forall>rs\<in>set windows. length rs < 65536"
    and "i < length windows" and "windows ! i \<noteq> []"
  shows "\<exists>d. aggregationTask rnd AggState_init windows ! i = Some d
    \<and> unat (sample_count d) = length (windows ! i)
    \<and> channel_stats_ok rnd (map ds18b20_temp (windows ! i))
         (ds18b20_avg d) (ds18b20_min d) (ds18b20_max d)
    \<and> channel_stats_ok rnd (map sht40_temp (windows ! i))
         (sht40_temp_avg d) (sht40_temp_min d) (sht40_temp_max d)
    \<and> channel_stats_ok rnd (map sht40_humidity (windows ! i))
         (sht40_hum_avg d) (sht40_hum_min d) (sht40_hum_max d)
    \<and> channel_stats_ok rnd (map sen0193_moisture_raw (windows ! i))
         (soil_moisture_avg d) (soil_moisture_min d) (soil_moisture_max d)"
proof -
  have all: "\<forall>rs\<in>set windows. length rs < 4294967296"
    using assms(1) by fastforce
  have len: "length (windows ! i) < 65536"
    using assms(1,2) by simp
  have "aggregationTask rnd AggState_init windows ! i
          = snd (aggregationCycle rnd AggState_init (windows ! i))"
    using assms(2) by (simp add: aggregationTask_windows [OF all])
  with cycle_statistics [OF assms(3) len, of rnd] show ?thesis by simp
qed


text \<open>The end-to-end scenario of the specification: 20.0, 22.0, NaN give 21.0, 20.0, 22.0.\<close>

lemma sample3_eval:
  "map_option ds18b20_avg (snd (aggregationCycle Fin AggState_init sample3)) = Some (Fin 21)"
  "map_option ds18b20_min (snd (aggregationCycle Fin AggState_init sample3)) = Some (Fin 20)"
  "map_option ds18b20_max (snd (aggregationCycle Fin AggState_init sample3)) = Some (Fin 22)"
  "map_option sample_count (snd (aggregationCycle Fin AggState_init sample3)) = Some 3"
  "map_option sht40_temp_avg (snd (aggregationCycle Fin AggState_init sample3)) = Some NaN"
  by (simp_all add: sample3_def aggregationCycle_def collectReading_def AggState_init_def
       reset_def addValue_def fgt_def buildAggregatedData_def getAvg_def getMin_def getMax_def)

theorem aggregation_statistics_witness:
  "length ([] :: RawReading list) < 65536 \<and> length sample3 < 65536
   \<and> (1 :: nat) < length [[], sample3] \<and> [[], sample3] ! 1 \<noteq> []
   \<and> (\<exists>d. aggregationTask Fin AggState_init [[], sample3] ! 1 = Some d
    \<and> unat (sample_count d) = 3
    \<and> channel_stats_ok Fin [Fin 20, Fin 22, NaN]
         (ds18b20_avg d) (ds18b20_min d) (ds18b20_max d)
    \<and> channel_stats_ok Fin [NaN, NaN, NaN]
         (sht40_temp_avg d) (sht40_temp_min d) (sht40_temp_max d))"
proof -
  have h: "\<forall>rs\<in>set [[], sample3]. length rs < 65536" "(1 :: nat) < length [[], sample3]"
    "[[], sample3] ! 1 \<noteq> []"
    by (simp_all add: sample3_def)
  from aggregation_statistics [OF h, of Fin] h show ?thesis
    by (auto simp add: sample3_def)
qed

section \<open>Window bounds\<close>

lemma sorted_hd_Min: "sorted xs \<Longrightarrow> xs \<noteq> [] \<Longrightarrow> hd xs = Min (set xs)"
  for xs :: "int list"
  by (cases xs) (auto intro!: Min_eqI [symmetric])

lemma sorted_le_last: "sorted xs \<Longrightarrow> x \<in> set xs \<Longrightarrow> x \<le> last xs"
  for xs :: "int list"
  by (induction xs) auto

lemma sorted_last_Max: "sorted xs \<Longrightarrow> xs \<noteq> [] \<Longrightarrow> last xs = Max (set xs)"
  for xs :: "int list"
  by (auto intro!: Max_eqI [symmetric] simp: sorted_le_last)

lemma sorted_hd_le_last: "sorted xs \<Longrightarrow> xs \<noteq> [] \<Longrightarrow> hd xs \<le> last xs"
  for xs :: "int list"
  by (simp add: sorted_le_last)

text \<open>The window bounds of the record of one window.\<close>

lemma cycle_window_bounds:
  assumes "rs \<noteq> []" and "length rs < 4294967296" and "timestamp (hd rs) \<noteq> 0"
  shows "\<exists>d. snd (aggregationCycle rnd AggState_init rs) = Some d
    \<and> start_timestamp d = timestamp (hd rs)
    \<and> end_timestamp d = timestamp (last rs)
    \<and> (sorted (map timestamp rs) \<longrightarrow>
          start_timestamp d = Min (set (map timestamp rs))
        \<and> end_timestamp d = Max (set (map timestamp rs))
        \<and> start_timestamp d \<le> end_timestamp d)"
proof -
  let ?s = "fst (foldl (collectReading rnd) (AggState_init, 0) rs)"
  let ?d = "buildAggregatedData rnd ?s (of_nat (length rs))"
  have emit: "snd (aggregationCycle rnd AggState_init rs) = Some ?d"
    using assms(1,2) by (simp add: aggregationCycle_emits)
  have w0: "windowStartTime AggState_init = 0" by (simp add: AggState_init_def)
  have st: "start_timestamp ?d = timestamp (hd rs)"
    using windowStart_fold [OF w0 assms(1) assms(3)] by (simp add: buildAggregatedData_def)
  have en: "end_timestamp ?d = timestamp (last rs)"
    using assms(1) by (simp add: buildAggregatedData_def windowEnd_fold)
  have hd_map: "timestamp (hd rs) = hd (map timestamp rs)"
    using assms(1) by (simp add: hd_map)
  have last_map: "timestamp (last rs) = last (map timestamp rs)"
    using assms(1) by (simp add: last_map)
  have ne: "map timestamp rs \<noteq> []" using assms(1) by simp
  have "sorted (map timestamp rs) \<longrightarrow>
          start_timestamp ?d = Min (set (map timestamp rs))
        \<and> end_timestamp ?d = Max (set (map timestamp rs))
        \<and> start_timestamp ?d \<le> end_timestamp ?d"
    unfolding st en hd_map last_map
    using ne sorted_hd_Min sorted_last_Max sorted_hd_le_last by blast
  with emit st en show ?thesis by blast
qed

text \<open>
  Claim C4, as amended. In a run of the task, the record of every non-empty window has
  as \<open>start_timestamp\<close> the timestamp of the first reading drained in that window and as
  \<open>end_timestamp\<close> that of the last one, in queue order (the first timestamp being
  nonzero, as every enqueued one is). When the timestamps of the window do not decrease
  along the queue these are the minimum and the maximum, and start \<open>\<le>\<close> end.
\<close>

theorem window_bounds_first_last:
  assumes "\<forall>rs\<in>set windows. length rs < 4294967296"
    and "i < length windows" and "windows ! i \<noteq> []"
    and "timestamp (hd (windows ! i)) \<noteq> 0"
  shows "\<exists>d. aggregationTask rnd AggState_init windows ! i = Some d
    \<and> start_timestamp d = timestamp (hd (windows ! i))
    \<and> end_timestamp d = timestamp (last (windows ! i))
    \<and> (sorted (map timestamp (windows ! i)) \<longrightarrow>
          start_timestamp d = Min (set (map timestamp (windows ! i)))
        \<and> end_timestamp d = Max (set (map timestamp (windows ! i)))
        \<and> start_timestamp d \<le> end_timestamp d)"
proof -
  have len: "length (windows ! i) < 4294967296"
    using assms(1,2) by simp
  have "aggregationTask rnd AggState_init windows ! i
          = snd (aggregationCycle rnd AggState_init (windows ! i))"
    using assms(2) by (simp add: aggregationTask_windows [OF assms(1)])
  with cycle_window_bounds [OF assms(3) len assms(4), of rnd] show ?thesis by simp
qed


text \<open>
  Claim C4, as stated, fails when the clock steps back inside a window: the record
  starts at the first timestamp, which is the maximum, and ends at the last, which is the
  minimum, so start exceeds end.
\<close>

theorem window_bounds_min_max_counterexample:
  "map_option start_timestamp (aggregationTask Fin AggState_init [backstep2] ! 0)
     = Some 1700000100
   \<and> map_option end_timestamp (aggregationTask Fin AggState_init [backstep2] ! 0)
     = Some 1700000000
   \<and> Min (set (map timestamp backstep2)) = 1700000000
   \<and> Max (set (map timestamp backstep2)) = 1700000100
   \<and> \<not> (1700000100 :: int) \<le> 1700000000"
  by (simp add: backstep2_def aggregationCycle_def collectReading_def AggState_init_def
       buildAggregatedData_def)

text \<open>A window with increasing timestamps, after an empty one.\<close>

theorem window_bounds_first_last_witness:
  "length ([] :: RawReading list) < 4294967296 \<and> length sample3 < 4294967296
   \<and> (1 :: nat) < length [[], sample3] \<and> [[], sample3] ! 1 \<noteq> []
   \<and> timestamp (hd ([[], sample3] ! 1)) \<noteq> 0
   \<and> sorted (map timestamp sample3)
   \<and> (\<exists>d. aggregationTask Fin AggState_init [[], sample3] ! 1 = Some d
        \<and> start_timestamp d = 1700000000 \<and> end_timestamp d = 1700000002
        \<and> start_timestamp d = Min (set (map timestamp sample3))
        \<and> end_timestamp d = Max (set (map timestamp sample3))
        \<and> start_timestamp d \<le> end_timestamp d)"
proof -
  have h: "\<forall>rs\<in>set [[], sample3]. length rs < 4294967296"
    "(1 :: nat) < length [[], sample3]" "[[], sample3] ! 1 \<noteq> []"
    "timestamp (hd ([[], sample3] ! 1)) \<noteq> 0"
    by (simp_all add: sample3_def)
  from window_bounds_first_last [OF h, of Fin] h show ?thesis
    by (auto simp add: sample3_def)
qed

section \<open>The upload drain\<close>

lemma meanwhile_Nil: "meanwhile q [] = q"
  by (simp add: meanwhile_def)

lemma meanwhile_Sent:
  "meanwhile q (Sent x # evs)
     = meanwhile (if length q < AGGREGATED_DATA_QUEUE_SIZE then q @ [x] else q) evs"
  by (simp add: meanwhile_def xQueueSend_def)

lemma meanwhile_Taken: "meanwhile q (Taken # evs) = meanwhile (tl q) evs"
  by (cases q) (simp_all add: meanwhile_def xQueueReceive_def)

lemma length_meanwhile:
  "length q \<le> AGGREGATED_DATA_QUEUE_SIZE \<Longrightarrow>
   length (meanwhile q evs) \<le> AGGREGATED_DATA_QUEUE_SIZE"
proof (induction evs arbitrary: q)
  case Nil
  then show ?case by (simp add: meanwhile_Nil)
next
  case (Cons e evs)
  show ?case
  proof (cases e)
    case (Sent x)
    with Cons show ?thesis by (simp add: meanwhile_Sent)
  next
    case Taken
    with Cons show ?thesis by (simp add: meanwhile_Taken)
  qed
qed



text \<open>The three ways an iteration of the drain goes, on a state written out in full.\<close>

lemma uploadLoop_empty:
  "uploadLoop script
     \<lparr>aggregatedDataQueue = [], systemStatus = st, itemsUploaded = i,
      successfulUploads = su, failedUploads = f, attempted = a, published = p\<rparr> =
   Some \<lparr>aggregatedDataQueue = [], systemStatus = st, itemsUploaded = i,
      successfulUploads = su, failedUploads = f, attempted = a, published = p\<rparr>"
  by (cases script) (auto simp: uploadIteration_def xQueueReceive_def)

lemma uploadLoop_success:
  "uploadLoop ((True, evs) # script)
     \<lparr>aggregatedDataQueue = d # q, systemStatus = st, itemsUploaded = i,
      successfulUploads = su, failedUploads = f, attempted = a, published = p\<rparr> =
   uploadLoop script
     \<lparr>aggregatedDataQueue = meanwhile q evs, systemStatus = st, itemsUploaded = i + 1,
      successfulUploads = su + 1, failedUploads = f, attempted = a @ [d],
      published = p @ [d]\<rparr>"
  by (simp add: uploadIteration_def xQueueReceive_def publishSucceeded_def)

lemma uploadLoop_failure:
  "uploadLoop ((False, evs) # script)
     \<lparr>aggregatedDataQueue = d # q, systemStatus = st, itemsUploaded = i,
      successfulUploads = su, failedUploads = f, attempted = a, published = p\<rparr> =
   Some \<lparr>aggregatedDataQueue =
           (if length (meanwhile q evs) < AGGREGATED_DATA_QUEUE_SIZE
            then d # meanwhile q evs else meanwhile q evs),
         systemStatus = st\<lparr>mqtt_errors := mqtt_errors st + 1\<rparr>, itemsUploaded = i,
         successfulUploads = su, failedUploads = f + 1, attempted = a @ [d],
         published = p\<rparr>"
  by (simp add: uploadIteration_def xQueueReceive_def publishFailed_def
        xQueueSendToFront_def)

lemma uploadLoop_successes:
  "uploadLoop (all_succeed (length pre) @ script)
     \<lparr>aggregatedDataQueue = pre @ q, systemStatus = st, itemsUploaded = i,
      successfulUploads = su, failedUploads = f, attempted = a, published = p\<rparr> =
   uploadLoop script
     \<lparr>aggregatedDataQueue = q, systemStatus = st, itemsUploaded = i + of_nat (length pre),
      successfulUploads = su + of_nat (length pre), failedUploads = f,
      attempted = a @ pre, published = p @ pre\<rparr>"
proof (induction pre arbitrary: i su a p)
  case Nil
  show ?case by (simp add: all_succeed_def)
next
  case (Cons d pre)
  have "uploadLoop (all_succeed (length (d # pre)) @ script)
     \<lparr>aggregatedDataQueue = (d # pre) @ q, systemStatus = st, itemsUploaded = i,
      successfulUploads = su, failedUploads = f, attempted = a, published = p\<rparr> =
    uploadLoop (all_succeed (length pre) @ script)
     \<lparr>aggregatedDataQueue = pre @ q, systemStatus = st, itemsUploaded = i + 1,
      successfulUploads = su + 1, failedUploads = f, attempted = a @ [d],
      published = p @ [d]\<rparr>"
    using uploadLoop_success [where evs = "[]" and q = "pre @ q"]
    by (simp add: all_succeed_def meanwhile_Nil)
  also note Cons.IH
  finally show ?case by (simp add: add.assoc)
qed

text \<open>
  The drain that no other task disturbs. The stats queue holds \<open>pre @ d # post\<close> within
  its capacity. If the publishes of \<open>pre\<close> succeed and that of \<open>d\<close> fails, the drain ends
  with the records of \<open>pre\<close> published and counted, \<open>d\<close> back at the head of the queue in
  front of \<open>post\<close>, and the rest of the script never consulted. If every publish succeeds
  the queue ends empty and every record is published, in order.
\<close>

lemma undisturbed_drain:
  assumes "aggregatedDataQueue s = pre @ d # post"
    and "length (aggregatedDataQueue s) \<le> AGGREGATED_DATA_QUEUE_SIZE"
  shows "uploadLoop (all_succeed (length pre) @ (False, []) # script) s =
     Some \<lparr>aggregatedDataQueue = d # post,
           systemStatus = (systemStatus s)\<lparr>mqtt_errors := mqtt_errors (systemStatus s) + 1\<rparr>,
           itemsUploaded = itemsUploaded s + of_nat (length pre),
           successfulUploads = successfulUploads s + of_nat (length pre),
           failedUploads = failedUploads s + 1,
           attempted = attempted s @ pre @ [d],
           published = published s @ pre\<rparr>"
    and "uploadLoop (all_succeed (length (aggregatedDataQueue s)) @ script) s =
     Some \<lparr>aggregatedDataQueue = [],
           systemStatus = systemStatus s,
           itemsUploaded = itemsUploaded s + of_nat (length (aggregatedDataQueue s)),
           successfulUploads = successfulUploads s + of_nat (length (aggregatedDataQueue s)),
           failedUploads = failedUploads s,
           attempted = attempted s @ aggregatedDataQueue s,
           published = published s @ aggregatedDataQueue s\<rparr>"
proof -
  obtain q st i su f a p where fields:
    "s = \<lparr>aggregatedDataQueue = q, systemStatus = st, itemsUploaded = i,
          successfulUploads = su, failedUploads = f, attempted = a, published = p\<rparr>"
    by (cases s) simp
  have q: "q = pre @ d # post" using assms(1) fields by simp
  have len: "length post < AGGREGATED_DATA_QUEUE_SIZE" using assms(2) fields q by simp
  show "uploadLoop (all_succeed (length pre) @ (False, []) # script) s =
     Some \<lparr>aggregatedDataQueue = d # post,
           systemStatus = (systemStatus s)\<lparr>mqtt_errors := mqtt_errors (systemStatus s) + 1\<rparr>,
           itemsUploaded = itemsUploaded s + of_nat (length pre),
           successfulUploads = successfulUploads s + of_nat (length pre),
           failedUploads = failedUploads s + 1,
           attempted = attempted s @ pre @ [d],
           published = published s @ pre\<rparr>"
    unfolding fields q using len
    by (simp only: uploadLoop_successes uploadLoop_failure meanwhile_Nil append_assoc) simp
  show "uploadLoop (all_succeed (length (aggregatedDataQueue s)) @ script) s =
     Some \<lparr>aggregatedDataQueue = [],
           systemStatus = systemStatus s,
           itemsUploaded = itemsUploaded s + of_nat (length (aggregatedDataQueue s)),
           successfulUploads = successfulUploads s + of_nat (length (aggregatedDataQueue s)),
           failedUploads = failedUploads s,
           attempted = attempted s @ aggregatedDataQueue s,
           published = published s @ aggregatedDataQueue s\<rparr>"
    unfolding fields
    using uploadLoop_successes [where q = "[]" and pre = q and script = script]
    by (simp add: uploadLoop_empty)
qed

text \<open>
  The scenario of the specification, as a whole cycle: two queued records, both
  connections succeed, the first publish succeeds and the second fails. The cycle ends
  with the second record alone in the queue, one upload counted as done and one as failed.
\<close>

lemma upload_cycle_example:
  "uploadCycle True True [(True, []), (False, [])]
       (upload_state [window_record 1700000000, window_record 1700000060]) =
     Some \<lparr>aggregatedDataQueue = [window_record 1700000060],
           systemStatus = SystemStatus_init\<lparr>wifi_connected := True, mqtt_errors := 1\<rparr>,
           itemsUploaded = 1, successfulUploads = 1, failedUploads = 1,
           attempted = [window_record 1700000000, window_record 1700000060],
           published = [window_record 1700000000]\<rparr>"
  by (simp add: uploadCycle_def upload_state_def uploadIteration_def xQueueReceive_def
        meanwhile_def publishSucceeded_def publishFailed_def xQueueSendToFront_def
        AGGREGATED_DATA_QUEUE_SIZE_def SystemStatus_init_def Let_def)

text \<open>
  A drain that ends within a script ends the same way when the script goes on: what comes
  after the end of the drain is never consulted. So a script that has a failed publish
  somewhere stands for every drain that ends, those whose publishes all succeed included:
  they end before, on the empty queue.
\<close>

lemma uploadLoop_extend:
  "uploadLoop script s = Some s' \<Longrightarrow> uploadLoop (script @ later) s = Some s'"
proof (induction script arbitrary: s)
  case Nil
  then have "aggregatedDataQueue s = []" and "s' = s"
    by (simp_all split: if_splits)
  then show ?case
    by (cases later) (auto simp: uploadIteration_def xQueueReceive_def)
next
  case (Cons step script)
  obtain ok evs where step: "step = (ok, evs)" by (cases step)
  from Cons.prems Cons.IH show ?case
    by (auto simp: step split: option.splits bool.splits)
qed




text \<open>
  Claim C9. A record \<open>d\<close> was taken off the queue and its publish fails, while the other
  tasks did \<open>evs\<close> to the queue. The drain ends there with the same counters whatever the
  queue holds; if the queue is full at that moment it stays as it is and \<open>d\<close>, which was
  not published, is not put back; \<open>d\<close> returns to the head only if a slot is free.
\<close>

theorem failed_publish_on_full_queue_drops_record:
  assumes "aggregatedDataQueue s = d # q"
  shows "\<exists>s'. uploadLoop ((False, evs) # script) s = Some s'
    \<and> attempted s' = attempted s @ [d]
    \<and> published s' = published s
    \<and> successfulUploads s' = successfulUploads s
    \<and> failedUploads s' = failedUploads s + 1
    \<and> mqtt_errors (systemStatus s') = mqtt_errors (systemStatus s) + 1
    \<and> (length (meanwhile q evs) = AGGREGATED_DATA_QUEUE_SIZE \<longrightarrow>
          aggregatedDataQueue s' = meanwhile q evs)
    \<and> (length (meanwhile q evs) < AGGREGATED_DATA_QUEUE_SIZE \<longrightarrow>
          aggregatedDataQueue s' = d # meanwhile q evs)"
  using assms
  by (cases s)
     (simp add: uploadIteration_def xQueueReceive_def publishFailed_def xQueueSendToFront_def
        Let_def)

text \<open>
  A full queue of ten records; the upload task takes the first, the aggregation task
  sends an eleventh during the publish, the publish fails: the first record is gone.
\<close>

theorem failed_publish_on_full_queue_drops_record_witness:
  "aggregatedDataQueue (upload_state (window_record 1700000000 # nine))
     = window_record 1700000000 # nine
   \<and> length (meanwhile nine [Sent (window_record 1700000600)]) = AGGREGATED_DATA_QUEUE_SIZE
   \<and> (\<exists>s'. uploadLoop [(False, [Sent (window_record 1700000600)])]
               (upload_state (window_record 1700000000 # nine)) = Some s'
         \<and> aggregatedDataQueue s' = nine @ [window_record 1700000600]
         \<and> published s' = []
         \<and> failedUploads s' = 1)
   \<and> window_record 1700000000 \<notin> set (nine @ [window_record 1700000600])"
proof -
  have q: "aggregatedDataQueue (upload_state (window_record 1700000000 # nine))
     = window_record 1700000000 # nine"
    by (simp add: upload_state_def)
  have len9: "length nine = 9" by (simp add: nine_def eight_def)
  have arr: "meanwhile nine [Sent (window_record 1700000600)]
               = nine @ [window_record 1700000600]"
    by (simp add: meanwhile_def xQueueSend_def len9 AGGREGATED_DATA_QUEUE_SIZE_def)
  have notin: "window_record 1700000000 \<notin> set (nine @ [window_record 1700000600])"
    by (auto simp: nine_def eight_def window_record_def)
  show ?thesis
    using failed_publish_on_full_queue_drops_record
            [OF q, of "[Sent (window_record 1700000600)]" "[]"] q arr notin len9
    by (auto simp add: upload_state_def AGGREGATED_DATA_QUEUE_SIZE_def)
qed

section \<open>The CSV row\<close>

lemma digit_char_not_comma: "n < 10 \<Longrightarrow> digit_char n \<noteq> CHR '',''"
proof -
  assume "n < 10"
  then have "''0123456789'' ! n \<in> set ''0123456789''"
    by (intro nth_mem) simp
  then show ?thesis
    unfolding digit_char_def by auto
qed

lemma dec_nat_no_comma: "CHR '','' \<notin> set (dec_nat n)"
proof (induction n rule: dec_nat.induct)
  case (1 n)
  show ?case
  proof (cases "n < 10")
    case True
    then show ?thesis
      using digit_char_not_comma [of n] by (subst dec_nat.simps) auto
  next
    case False
    then show ?thesis
      using "1.IH" digit_char_not_comma [of "n mod 10"]
      by (subst dec_nat.simps) auto
  qed
qed

lemma dec_int_no_comma: "CHR '','' \<notin> set (dec_int i)"
  by (simp add: dec_int_def dec_nat_no_comma)

lemma csv_fields_not_Nil: "csv_fields s \<noteq> []"
  by (induction s) (auto split: list.splits)

lemma csv_fields_field:
  "CHR '','' \<notin> set a \<Longrightarrow> csv_fields (a @ CHR '','' # b) = a # csv_fields b"
  by (induction a) (auto split: list.splits)

lemma csv_fields_single: "CHR '','' \<notin> set a \<Longrightarrow> csv_fields a = [a]"
  by (induction a) (auto split: list.splits)

lemma csv_fields_commas: "length (csv_fields s) = Suc (count_list s CHR '','')"
  by (induction s) (auto split: list.splits simp: csv_fields_not_Nil)

lemma header_fields: "length (csv_fields csvHeader) = 15"
  by (simp add: csvHeader_def)

lemma channel_text_fields:
  assumes "\<forall>p v. CHR '','' \<notin> set (printf_f p v)"
  shows "csv_fields ((if isnan avg then '',,,''
            else printf_f p avg @ '','' @ printf_f p mn @ '','' @ printf_f p mx @ '','') @ rest)
         = channel_fields printf_f p avg mn mx @ csv_fields rest"
  using assms by (simp add: channel_fields_def csv_fields_field)

lemma last_channel_text_fields:
  assumes "\<forall>p v. CHR '','' \<notin> set (printf_f p v)"
  shows "csv_fields (if isnan avg then '',,''
            else printf_f p avg @ '','' @ printf_f p mn @ '','' @ printf_f p mx)
         = channel_fields printf_f p avg mn mx"
  using assms by (simp add: channel_fields_def csv_fields_field csv_fields_single)

lemma head_text_fields:
  "csv_fields (dec_int a @ '','' @ dec_int b @ '','' @ dec_nat n @ '','' @ rest)
     = [dec_int a, dec_int b, dec_nat n] @ csv_fields rest"
  by (simp add: csv_fields_field dec_int_no_comma dec_nat_no_comma)

lemma length_channel_fields: "length (channel_fields printf_f p avg mn mx) = 3"
  by (simp add: channel_fields_def)

text \<open>
  Claim C6. Whatever \<^verbatim>\<open>printf\<close> prints for a float holds no comma. Then the row of a
  record splits into the three integer fields followed by three fields per channel:
  avg, min and max printed with 2 decimals for the two temperature channels, 1 for the
  humidity and 0 for the soil moisture, or three empty fields when the channel's avg is
  NaN, so that no NaN is printed. The row has the 15 fields of the header and 14 commas,
  whichever channels have data.
\<close>

theorem csv_row_fields:
  assumes "\<forall>p v. CHR '','' \<notin> set (printf_f p v)"
  shows "csv_fields (csvRow printf_f data) =
       [dec_int (start_timestamp data), dec_int (end_timestamp data),
        dec_nat (unat (sample_count data))]
       @ channel_fields printf_f 2 (ds18b20_avg data) (ds18b20_min data) (ds18b20_max data)
       @ channel_fields printf_f 2
           (sht40_temp_avg data) (sht40_temp_min data) (sht40_temp_max data)
       @ channel_fields printf_f 1
           (sht40_hum_avg data) (sht40_hum_min data) (sht40_hum_max data)
       @ channel_fields printf_f 0
           (soil_moisture_avg data) (soil_moisture_min data) (soil_moisture_max data)
   \<and> length (csv_fields (csvRow printf_f data)) = length (csv_fields csvHeader)
   \<and> count_list (csvRow printf_f data) CHR '','' = 14"
proof -
  have fields: "csv_fields (csvRow printf_f data) =
       [dec_int (start_timestamp data), dec_int (end_timestamp data),
        dec_nat (unat (sample_count data))]
       @ channel_fields printf_f 2 (ds18b20_avg data) (ds18b20_min data) (ds18b20_max data)
       @ channel_fields printf_f 2
           (sht40_temp_avg data) (sht40_temp_min data) (sht40_temp_max data)
       @ channel_fields printf_f 1
           (sht40_hum_avg data) (sht40_hum_min data) (sht40_hum_max data)
       @ channel_fields printf_f 0
           (soil_moisture_avg data) (soil_moisture_min data) (soil_moisture_max data)"
    unfolding csvRow_def
    by (simp only: head_text_fields channel_text_fields [OF assms]
          last_channel_text_fields [OF assms])
  have len: "length (csv_fields (csvRow printf_f data)) = 15"
    unfolding fields by (simp add: length_channel_fields)
  have "count_list (csvRow printf_f data) CHR '','' = 14"
    using len csv_fields_commas [of "csvRow printf_f data"] by simp
  with fields len show ?thesis by (simp only: header_fields simp_thms)
qed

lemma fixed_point_no_comma: "CHR '','' \<notin> set (fixed_point p v)"
  by (cases v) (auto simp: fixed_point_def Let_def dec_nat_no_comma)

lemma dec_nat_small: "n < 10 \<Longrightarrow> dec_nat n = [digit_char n]"
  by (subst dec_nat.simps) simp

lemma dec_nat_big: "\<not> n < 10 \<Longrightarrow> dec_nat n = dec_nat (n div 10) @ [digit_char (n mod 10)]"
  by (subst dec_nat.simps) simp

text \<open>A row with three channels of data and the soil channel empty.\<close>

theorem csv_row_fields_witness:
  "(\<forall>p v. CHR '','' \<notin> set (fixed_point p v))
   \<and> csvRow fixed_point (window_record 1700000000)
       = ''1700000000,1700000059,60,21.00,20.00,22.00,21.00,20.00,22.00,40.0,39.0,41.0,,,''
   \<and> csv_fields (csvRow fixed_point (window_record 1700000000))
       = [''1700000000'', ''1700000059'', ''60'', ''21.00'', ''20.00'', ''22.00'',
          ''21.00'', ''20.00'', ''22.00'', ''40.0'', ''39.0'', ''41.0'', [], [], []]
   \<and> length (csv_fields (csvRow fixed_point (window_record 1700000000)))
       = length (csv_fields csvHeader)"
proof -
  let ?d = "window_record 1700000000"
  have nc: "\<forall>p v. CHR '','' \<notin> set (fixed_point p v)"
    by (simp add: fixed_point_no_comma)
  have row: "csvRow fixed_point ?d
       = ''1700000000,1700000059,60,21.00,20.00,22.00,21.00,20.00,22.00,40.0,39.0,41.0,,,''"
    by (simp add: csvRow_def window_record_def dec_int_def fixed_point_def
          dec_nat_small dec_nat_big digit_char_def)
  have rhs: "[dec_int (start_timestamp ?d), dec_int (end_timestamp ?d),
        dec_nat (unat (sample_count ?d))]
       @ channel_fields fixed_point 2 (ds18b20_avg ?d) (ds18b20_min ?d) (ds18b20_max ?d)
       @ channel_fields fixed_point 2
           (sht40_temp_avg ?d) (sht40_temp_min ?d) (sht40_temp_max ?d)
       @ channel_fields fixed_point 1
           (sht40_hum_avg ?d) (sht40_hum_min ?d) (sht40_hum_max ?d)
       @ channel_fields fixed_point 0
           (soil_moisture_avg ?d) (soil_moisture_min ?d) (soil_moisture_max ?d)
     = [''1700000000'', ''1700000059'', ''60'', ''21.00'', ''20.00'', ''22.00'',
          ''21.00'', ''20.00'', ''22.00'', ''40.0'', ''39.0'', ''41.0'', [], [], []]"
    by (simp add: window_record_def channel_fields_def dec_int_def fixed_point_def
          dec_nat_small dec_nat_big digit_char_def)
  note inst = csv_row_fields [OF nc, of ?d]
  from inst have fields: "csv_fields (csvRow fixed_point ?d)
       = [''1700000000'', ''1700000059'', ''60'', ''21.00'', ''20.00'', ''22.00'',
          ''21.00'', ''20.00'', ''22.00'', ''40.0'', ''39.0'', ''41.0'', [], [], []]"
    unfolding rhs by (rule conjunct1)
  from inst have len: "length (csv_fields (csvRow fixed_point ?d))
       = length (csv_fields csvHeader)"
    by (rule conjunct2 [THEN conjunct1])
  from nc row fields len show ?thesis by (intro conjI)
qed

section \<open>Storage failures\<close>




text \<open>
  It fails on a full card as well. The file opens, the card keeps nothing of the row,
  and no result of the print calls is looked at: the attempt is counted as a successful
  write, no error is counted, storage stays marked available, and the record is gone
  from the queue with no row on the card.
\<close>

lemma lost_write_counted_as_success:
  "storage_outcome fixed_point gmtime_fixed env_card_full
        (logging_state [window_record 1700000000]) (window_record 1700000000) = WriteLost
   \<and> loggingIteration fixed_point gmtime_fixed env_card_full
        (logging_state [window_record 1700000000])
     = \<lparr>aggregatedDataQueue = [], systemStatus = SystemStatus_init\<lparr>sd_card_ok := True\<rparr>,
        sdCardInitialized = True, successfulWrites = 1, failedWrites = 0,
        sdFiles = [getLogFilename gmtime_fixed 1700000000 \<mapsto> []],
        received = [window_record 1700000000]\<rparr>"
  by (simp add: loggingIteration_def storage_outcome_def writeDataToSD_def
        ensureFileWithHeaders_def xQueueReceive_def logging_state_def env_card_full_def
        env_ok_def SystemStatus_init_def Let_def window_record_def csvHeader_def CRLF_def)


section \<open>One queue, two consumers\<close>

text \<open>
  The steps of the two consumers are the queue and log effects of one iteration of
  \<^verbatim>\<open>loggingTask\<close> and of one iteration of the upload drain.
\<close>

lemma storage_step_is_loggingIteration:
  "aggregatedDataQueue s = statsQueue p \<Longrightarrow> received s = storageReceived p \<Longrightarrow>
   aggregatedDataQueue (loggingIteration printf_f gmtime env s)
     = statsQueue (pipeline_step p StorageReceives)
   \<and> received (loggingIteration printf_f gmtime env s)
     = storageReceived (pipeline_step p StorageReceives)"
  by (auto simp: loggingIteration_def xQueueReceive_def Let_def countFailedWrite_def
        split: list.splits prod.splits bool.splits)

lemma upload_step_is_uploadIteration:
  "aggregatedDataQueue s = statsQueue p \<Longrightarrow> attempted s = uploadReceived p \<Longrightarrow>
   published s = uploadPublished p \<Longrightarrow>
   (case uploadIteration ok [] s of
      None \<Rightarrow> pipeline_step p (UploadReceives ok) = p
    | Some (go_on, s') \<Rightarrow>
        aggregatedDataQueue s' = statsQueue (pipeline_step p (UploadReceives ok))
      \<and> attempted s' = uploadReceived (pipeline_step p (UploadReceives ok))
      \<and> published s' = uploadPublished (pipeline_step p (UploadReceives ok)))"
  by (auto simp: uploadIteration_def xQueueReceive_def Let_def publishSucceeded_def
        publishFailed_def meanwhile_def split: list.splits)

text \<open>
  In every interleaving each record that was sent is in exactly one place: handed to the
  storage task, published by the upload task, or still queued. So once a record has been
  sent, the two consumers cannot both have had every record.
\<close>

lemma pipeline_step_conservation:
  "length (statsQueue p) \<le> AGGREGATED_DATA_QUEUE_SIZE \<Longrightarrow>
   length (storageReceived p) + length (uploadPublished p) + length (statsQueue p)
     = length (emitted p) \<Longrightarrow>
   length (statsQueue (pipeline_step p e)) \<le> AGGREGATED_DATA_QUEUE_SIZE
   \<and> length (storageReceived (pipeline_step p e)) + length (uploadPublished (pipeline_step p e))
       + length (statsQueue (pipeline_step p e))
     = length (emitted (pipeline_step p e))"
  by (cases e)
     (auto simp: xQueueSend_def xQueueReceive_def xQueueSendToFront_def split: list.splits)

lemma pipeline_conservation_from:
  "length (statsQueue p) \<le> AGGREGATED_DATA_QUEUE_SIZE \<Longrightarrow>
   length (storageReceived p) + length (uploadPublished p) + length (statsQueue p)
     = length (emitted p) \<Longrightarrow>
   length (statsQueue (foldl pipeline_step p steps)) \<le> AGGREGATED_DATA_QUEUE_SIZE
   \<and> length (storageReceived (foldl pipeline_step p steps))
       + length (uploadPublished (foldl pipeline_step p steps))
       + length (statsQueue (foldl pipeline_step p steps))
     = length (emitted (foldl pipeline_step p steps))"
proof (induction steps arbitrary: p)
  case Nil
  then show ?case by simp
next
  case (Cons e steps)
  from pipeline_step_conservation [OF Cons.prems, of e]
  show ?case by (simp add: Cons.IH)
qed

lemma pipeline_conservation:
  "length (storageReceived (pipeline_run steps)) + length (uploadPublished (pipeline_run steps))
     + length (statsQueue (pipeline_run steps))
   = length (emitted (pipeline_run steps))"
  unfolding pipeline_run_def
  using pipeline_conservation_from [of Pipeline_init steps]
  by (simp add: Pipeline_init_def)

lemma one_record_one_consumer:
  assumes "emitted (pipeline_run steps) \<noteq> []"
  shows "\<not> (storageReceived (pipeline_run steps) = emitted (pipeline_run steps)
           \<and> uploadPublished (pipeline_run steps) = emitted (pipeline_run steps))"
proof
  assume both: "storageReceived (pipeline_run steps) = emitted (pipeline_run steps)
           \<and> uploadPublished (pipeline_run steps) = emitted (pipeline_run steps)"
  from assms have "0 < length (emitted (pipeline_run steps))" by simp
  with pipeline_conservation [of steps] both show False by simp
qed

text \<open>
  The same holds for a record that the upload task puts back after a failed publish: it
  is at the head of the one queue, the storage task takes it, and the next upload cycle
  finds the queue empty. The record is stored and never published.
\<close>

lemma pushed_back_record_taken_by_storage:
  "pipeline_run [AggregationSends (window_record 1700000000), UploadReceives False,
                 StorageReceives, UploadReceives True]
     = \<lparr>statsQueue = [], emitted = [window_record 1700000000],
        storageReceived = [window_record 1700000000],
        uploadReceived = [window_record 1700000000],
        uploadPublished = []\<rparr>"
  by (simp add: pipeline_run_def Pipeline_init_def xQueueSend_def xQueueReceive_def
        xQueueSendToFront_def AGGREGATED_DATA_QUEUE_SIZE_def)

text \<open>
  Claim C1 on the code. One record is sent to the single queue. If the storage task
  receives first, the upload task finds the queue empty and never receives the record;
  if the upload task receives first and publishes, the storage task never receives it.
  The comments of \<^verbatim>\<open>aggregationTask\<close> announce a send to the logging and the cloud
  upload queues; the code sends once, to the one queue both tasks take from.
\<close>

theorem single_queue_record_reaches_one_consumer:
  "pipeline_run [AggregationSends (window_record 1700000000), StorageReceives,
                 UploadReceives True]
     = \<lparr>statsQueue = [], emitted = [window_record 1700000000],
        storageReceived = [window_record 1700000000],
        uploadReceived = [], uploadPublished = []\<rparr>
   \<and> pipeline_run [AggregationSends (window_record 1700000000), UploadReceives True,
                   StorageReceives]
     = \<lparr>statsQueue = [], emitted = [window_record 1700000000],
        storageReceived = [],
        uploadReceived = [window_record 1700000000],
        uploadPublished = [window_record 1700000000]\<rparr>"
  by (simp add: pipeline_run_def Pipeline_init_def xQueueSend_def xQueueReceive_def
        AGGREGATED_DATA_QUEUE_SIZE_def)

section \<open>Time synchronisation\<close>

text \<open>
  A time before 2020-01-01 is refused before anything is written, so every time written
  to the hardware clock is at or after that day.
\<close>

lemma implausible_time_not_written:
  "now < 1577836800 \<Longrightarrow> updateRTCFromNTP sensor now readback s = (False, s)"
  by (simp add: updateRTCFromNTP_def split: option.splits)

lemma written_time_is_plausible:
  "t \<in> set (rtcWrites (snd (updateRTCFromNTP sensor now readback s))) \<Longrightarrow>
   t \<in> set (rtcWrites s) \<or> (t = now \<and> 1577836800 \<le> now)"
  by (auto simp: updateRTCFromNTP_def setTime_def Let_def split: option.splits if_splits)

text \<open>
  A read-back that differs from the written time by more than 2 s and by less than
  \<open>2^31\<close> s is reported as a failure, and the synchronisation is not recorded.
\<close>

lemma to_int32_id: "- 2147483648 \<le> x \<Longrightarrow> x < 2147483648 \<Longrightarrow> to_int32 x = x"
  by (simp add: to_int32_def)

lemma readback_mismatch_reported:
  assumes "2 < \<bar>int (unixtime readback) - now\<bar>"
    and "\<bar>int (unixtime readback) - now\<bar> < 2147483648"
    and "rtcFound rtc"
  shows "fst (updateRTCFromNTP (Some rtc) now readback s) = False
    \<and> lastSyncTime (snd (updateRTCFromNTP (Some rtc) now readback s)) = lastSyncTime s
    \<and> initialSyncComplete (snd (updateRTCFromNTP (Some rtc) now readback s))
        = initialSyncComplete s"
proof -
  have "to_int32 \<bar>int (unixtime readback) - now\<bar> = \<bar>int (unixtime readback) - now\<bar>"
    using assms(2) by (intro to_int32_id) simp_all
  then show ?thesis
    using assms(1,3)
    by (auto simp: updateRTCFromNTP_def setTime_def getUnixTime_def Let_def)
qed

text \<open>The clock reads back one second after the time written: a success.\<close>

lemma readback_within_tolerance:
  "updateRTCFromNTP (Some \<lparr>rtcFound = True\<rparr>) 1700000000 readback_next_second
     TimeSyncState_init
   = (True, \<lparr>lastSyncTime = 1700000000, initialSyncComplete = True,
             rtcWrites = [1700000000]\<rparr>)"
  by (simp add: updateRTCFromNTP_def setTime_def getUnixTime_def to_int32_def
        TimeSyncState_init_def readback_next_second_def unixtime_def date2days_def
        time2ulong_def daysInMonth_def SECONDS_FROM_1970_TO_2000_def Let_def)

text \<open>
  Claim C8 on the code. The difference of the two times is stored in an \<^verbatim>\<open>int32_t\<close>
  before it is compared with the tolerance. The system time is 1700000000
  (2023-11-14 22:13:20) and is written; the clock reads back 2091-12-03 01:27:28, which is
  the Unix time 3847483648, \<open>2^31\<close> s later. The stored difference is negative, the
  comparison with 2 fails, and the attempt is reported as a success and recorded as
  the last synchronisation.
\<close>

theorem readback_off_by_2_31_reported_success:
  "int (unixtime readback_2091) = 3847483648
   \<and> 2 < \<bar>int (unixtime readback_2091) - 1700000000\<bar>
   \<and> updateRTCFromNTP (Some \<lparr>rtcFound = True\<rparr>) 1700000000 readback_2091
         TimeSyncState_init
       = (True, \<lparr>lastSyncTime = 1700000000, initialSyncComplete = True,
                 rtcWrites = [1700000000]\<rparr>)"
  by (simp add: updateRTCFromNTP_def setTime_def getUnixTime_def to_int32_def
        TimeSyncState_init_def readback_2091_def unixtime_def date2days_def
        time2ulong_def daysInMonth_def SECONDS_FROM_1970_TO_2000_def Let_def)

section \<open>Timestamps of enqueued readings\<close>

text \<open>
  A clock reading whose year lies in 2020..2100 converts to a time between the end of
  2019 and \<open>2^32\<close>: neither the day count nor the seconds wrap around.
\<close>

lemma sum_list_take_le: "sum_list (take k xs) \<le> sum_list xs" for xs :: "nat list"
proof (induction xs arbitrary: k)
  case Nil
  show ?case by simp
next
  case (Cons x xs)
  show ?case
  proof (cases k)
    case 0
    then show ?thesis by simp
  next
    case (Suc j)
    with Cons.IH [of j] show ?thesis by simp
  qed
qed

lemma month_days_le: "sum_list (take k daysInMonth) \<le> 334"
  using sum_list_take_le [of k daysInMonth] by (simp add: daysInMonth_def)

lemma date2days_bounds:
  assumes "20 \<le> y" and "y \<le> 100" and "d < 256"
  shows "7304 \<le> date2days (y + 2000) m d \<and> date2days (y + 2000) m d \<le> 37114"
proof -
  let ?md = "sum_list (take (m - 1) daysInMonth)"
  have md: "?md \<le> 334" by (rule month_days_le)
  define days where "days = (d + ?md) mod 65536"
  have days: "days \<le> 589" using md assms(3) by (simp add: days_def)
  define days' where "days' = (if 2 < m \<and> y mod 4 = 0 then (days + 1) mod 65536 else days)"
  have days': "days' \<le> 590" using days by (simp add: days'_def)
  have q: "(int y + 3) div 4 \<le> 25" "5 \<le> (int y + 3) div 4" using assms(1,2) by simp_all
  define r where "r = int days' + 365 * int y + (int y + 3) div 4 - 1"
  have r: "7304 \<le> r" "r \<le> 37114" using days' q assms(1,2) by (simp_all add: r_def)
  have "date2days (y + 2000) m d = nat (r mod 65536)"
    by (simp add: date2days_def Let_def days_def days'_def r_def)
  moreover have "r mod 65536 = r" using r by simp
  ultimately have "date2days (y + 2000) m d = nat r" by simp
  with r show ?thesis by linarith
qed

lemma byte_bound: "unat x < 256" for x :: "8 word"
  using unsigned_less [of x, where 'a = nat] by simp

lemma unixtime_bounds:
  assumes "20 \<le> unat (dt_yOff dt)" and "unat (dt_yOff dt) \<le> 100"
  shows "1577750400 \<le> unixtime dt \<and> unixtime dt < 4294967296"
proof -
  have b: "unat (dt_d dt) < 256" "unat (dt_hh dt) < 256" "unat (dt_mm dt) < 256"
    "unat (dt_ss dt) < 256"
    using byte_bound by simp_all
  define days where
    "days = date2days (unat (dt_yOff dt) + 2000) (unat (dt_m dt)) (unat (dt_d dt))"
  have days: "7304 \<le> days" "days \<le> 37114"
    using date2days_bounds [OF assms b(1), of "unat (dt_m dt)"] by (simp_all add: days_def)
  define t where
    "t = ((days * 24 + unat (dt_hh dt)) * 60 + unat (dt_mm dt)) * 60 + unat (dt_ss dt)"
  have t1: "631065600 \<le> t" using days b unfolding t_def by simp
  have t2: "t < 3207583156" using days b unfolding t_def by simp
  note t = t1 t2
  then have "t mod 4294967296 = t" by simp
  then have "unixtime dt = (t + 946684800) mod 4294967296"
    by (simp add: unixtime_def time2ulong_def SECONDS_FROM_1970_TO_2000_def days_def t_def)
  moreover have "(t + 946684800) mod 4294967296 = t + 946684800" using t by simp
  ultimately show ?thesis using t by simp
qed

text \<open>A successful clock read stores a nonzero timestamp; no sensor changes it.\<close>

lemma DS1308Sensor_read_timestamp:
  assumes "DS1308Sensor_read rtc now data = (True, r)"
  shows "timestamp r \<noteq> 0"
proof -
  from assms have y: "2020 \<le> year now" "year now \<le> 2100" and r: "r = data\<lparr>timestamp := int (unixtime now)\<rparr>"
    by (auto simp: DS1308Sensor_read_def split: if_splits)
  from y have "20 \<le> unat (dt_yOff now)" "unat (dt_yOff now) \<le> 100"
    by (simp_all add: year_def)
  from unixtime_bounds [OF this] r show ?thesis by simp
qed

lemma ISensor_read_timestamp: "timestamp (snd (ISensor_read sensor r)) = timestamp r"
  by (cases sensor) (auto split: option.splits)

lemma readSensors_timestamp: "timestamp (readSensors activeSensors r) = timestamp r"
  unfolding readSensors_def
  by (induction activeSensors arbitrary: r) (simp_all add: ISensor_read_timestamp)

lemma readTimestamp_valid:
  assumes "readTimestamp rtcSensor now reading = (True, r)"
  shows "timestamp r \<noteq> 0 \<and> (\<exists>rtc. rtcSensor = Some rtc \<and> fst (DS1308Sensor_read rtc now reading))"
  using assms DS1308Sensor_read_timestamp
  by (auto simp: readTimestamp_def split: option.splits prod.splits bool.splits)

text \<open>
  Claim C5. In one tick of the acquisition task (the month register of the clock holding
  at most 12) the raw queue either stays as it is or gains one reading at its end; the
  reading it gains has a nonzero timestamp, and it is gained only when the clock sensor
  exists and its read succeeded.
\<close>

theorem enqueued_reading_has_timestamp:
  assumes "unat (dt_m now) \<le> 12"
  shows "rawReadingQueue (sensorReadingIteration rtcSensor now activeSensors s) = rawReadingQueue s
   \<or> (\<exists>r rtc. rawReadingQueue (sensorReadingIteration rtcSensor now activeSensors s)
               = rawReadingQueue s @ [r]
        \<and> timestamp r \<noteq> 0
        \<and> rtcSensor = Some rtc
        \<and> fst (DS1308Sensor_read rtc now RawReading_init))"
proof (cases "readTimestamp rtcSensor now RawReading_init")
  case (Pair readingValid reading1)
  show ?thesis
  proof (cases readingValid)
    case False
    with Pair show ?thesis
      by (simp add: sensorReadingIteration_def countFailedReading_def)
  next
    case True
    with Pair readTimestamp_valid [of rtcSensor now RawReading_init reading1]
    obtain rtc where ts: "timestamp reading1 \<noteq> 0" and rtc: "rtcSensor = Some rtc"
      and ok: "fst (DS1308Sensor_read rtc now RawReading_init)"
      by auto
    have ts2: "timestamp (readSensors activeSensors reading1) \<noteq> 0"
      using ts by (simp add: readSensors_timestamp)
    show ?thesis
      using Pair True ts2 rtc ok
      by (auto simp: sensorReadingIteration_def countFailedReading_def xQueueSend_def Let_def)
  qed
qed

text \<open>So a queue free of zero timestamps stays free of them, tick after tick.\<close>

lemma raw_queue_timestamps_nonzero:
  assumes "unat (dt_m now) \<le> 12" and "\<forall>r\<in>set (rawReadingQueue s). timestamp r \<noteq> 0"
  shows "\<forall>r\<in>set (rawReadingQueue (sensorReadingIteration rtcSensor now activeSensors s)).
           timestamp r \<noteq> 0"
proof -
  have "rawReadingQueue (sensorReadingIteration rtcSensor now activeSensors s) = rawReadingQueue s
   \<or> (\<exists>r. rawReadingQueue (sensorReadingIteration rtcSensor now activeSensors s)
               = rawReadingQueue s @ [r] \<and> timestamp r \<noteq> 0)"
  proof (cases "readTimestamp rtcSensor now RawReading_init")
    case (Pair readingValid reading1)
    show ?thesis
    proof (cases readingValid)
      case False
      with Pair show ?thesis
        by (simp add: sensorReadingIteration_def countFailedReading_def)
    next
      case True
      with Pair readTimestamp_valid [of rtcSensor now RawReading_init reading1]
      have "timestamp (readSensors activeSensors reading1) \<noteq> 0"
        by (simp add: readSensors_timestamp)
      with Pair True show ?thesis
        by (auto simp: sensorReadingIteration_def countFailedReading_def xQueueSend_def
              Let_def)
    qed
  qed
  with assms(2) show ?thesis by auto
qed

text \<open>A tick at 2023-11-14 22:13:20 with three sensors answering.\<close>

lemma unixtime_clock_reading: "unixtime clock_reading = 1700000000"
  by (simp add: unixtime_def clock_reading_def date2days_def time2ulong_def daysInMonth_def
        SECONDS_FROM_1970_TO_2000_def Let_def)

lemma iteration_example:
  "rawReadingQueue (sensorReadingIteration (Some \<lparr>rtcFound = True\<rparr>) clock_reading
       three_sensors sensor_task_state)
   = [\<lparr>timestamp = 1700000000, ds18b20_temp = Fin 21, sht40_temp = Fin 22,
       sht40_humidity = Fin 40, sen0193_moisture_raw = Fin 2000\<rparr>]"
  by (simp add: sensorReadingIteration_def readTimestamp_def DS1308Sensor_read_def year_def
        unixtime_clock_reading readSensors_def three_sensors_def sensor_task_state_def
        clock_reading_def [THEN arg_cong, of dt_yOff] RawReading_init_def xQueueSend_def
        RAW_READING_QUEUE_SIZE_def feq_def fgt_def DEVICE_DISCONNECTED_C_def readRawADC_def
        SOIL_MOISTURE_SAMPLES_def sum_list_replicate)

theorem enqueued_reading_has_timestamp_witness:
  "unat (dt_m clock_reading) \<le> 12
   \<and> rawReadingQueue (sensorReadingIteration (Some \<lparr>rtcFound = True\<rparr>) clock_reading
         three_sensors sensor_task_state)
       = rawReadingQueue sensor_task_state
         @ [\<lparr>timestamp = 1700000000, ds18b20_temp = Fin 21, sht40_temp = Fin 22,
             sht40_humidity = Fin 40, sen0193_moisture_raw = Fin 2000\<rparr>]
   \<and> (\<exists>r. rawReadingQueue (sensorReadingIteration (Some \<lparr>rtcFound = True\<rparr>)
              clock_reading three_sensors sensor_task_state)
            = rawReadingQueue sensor_task_state @ [r]
          \<and> timestamp r \<noteq> 0)"
proof -
  have m: "unat (dt_m clock_reading) \<le> 12" by (simp add: clock_reading_def)
  have q0: "rawReadingQueue sensor_task_state = []" by (simp add: sensor_task_state_def)
  from enqueued_reading_has_timestamp [OF m, of "Some \<lparr>rtcFound = True\<rparr>" three_sensors
         sensor_task_state]
  show ?thesis
    using m q0 iteration_example by auto
qed

section \<open>NaN statistics in the JSON payloads\<close>

text \<open>
  For each serialiser and each channel: when the three statistics of the channel are
  NaN, the text holds the channel's key followed by the three members with the value
  \<^verbatim>\<open>nan\<close>.
\<close>

lemma mqtt_ds18b20_nan:
  assumes \<open>isnan (ds18b20_avg data)\<close> and \<open>isnan (ds18b20_min data)\<close> and \<open>isnan (ds18b20_max data)\<close>
  shows \<open>\<exists>pre post. mqttPayload client_id dtostrf data = pre @ ''"ds18b20":{'' @ nan_members @ ''}'' @ post\<close>
proof (intro exI)
  show \<open>mqttPayload client_id dtostrf data =
      (''{'' @ ''"device":"'' @ client_id @ ''",'' @ ''"start":'' @ dec_int (start_timestamp data) @ '','' @ ''"end":'' @ dec_int (end_timestamp data) @ '','' @ ''"samples":'' @ dec_nat (unat (sample_count data)) @ '','')
      @ ''"ds18b20":{'' @ nan_members @ ''}''
      @ ('','' @ ''"sht40_temp":{'' @ statsMembers dtostrf 2 (sht40_temp_avg data) (sht40_temp_min data) (sht40_temp_max data) @ ''}'' @ '','' @ ''"sht40_humidity":{'' @ statsMembers dtostrf 1 (sht40_hum_avg data) (sht40_hum_min data) (sht40_hum_max data) @ ''}'' @ '','' @ ''"soil_moisture":{'' @ statsMembers dtostrf 0 (soil_moisture_avg data) (soil_moisture_min data) (soil_moisture_max data) @ ''}'' @ ''}'')\<close>
    using assms by (simp add: mqttPayload_def statsMembers_def String_float_def nan_members_def)
qed

lemma mqtt_sht40_temp_nan:
  assumes \<open>isnan (sht40_temp_avg data)\<close> and \<open>isnan (sht40_temp_min data)\<close> and \<open>isnan (sht40_temp_max data)\<close>
  shows \<open>\<exists>pre post. mqttPayload client_id dtostrf data = pre @ ''"sht40_temp":{'' @ nan_members @ ''}'' @ post\<close>
proof (intro exI)
  show \<open>mqttPayload client_id dtostrf data =
      (''{'' @ ''"device":"'' @ client_id @ ''",'' @ ''"start":'' @ dec_int (start_timestamp data) @ '','' @ ''"end":'' @ dec_int (end_timestamp data) @ '','' @ ''"samples":'' @ dec_nat (unat (sample_count data)) @ '','' @ ''"ds18b20":{'' @ statsMembers dtostrf 2 (ds18b20_avg data) (ds18b20_min data) (ds18b20_max data) @ ''},'')
      @ ''"sht40_temp":{'' @ nan_members @ ''}''
      @ ('','' @ ''"sht40_humidity":{'' @ statsMembers dtostrf 1 (sht40_hum_avg data) (sht40_hum_min data) (sht40_hum_max data) @ ''}'' @ '','' @ ''"soil_moisture":{'' @ statsMembers dtostrf 0 (soil_moisture_avg data) (soil_moisture_min data) (soil_moisture_max data) @ ''}'' @ ''}'')\<close>
    using assms by (simp add: mqttPayload_def statsMembers_def String_float_def nan_members_def)
qed

lemma mqtt_sht40_hum_nan:
  assumes \<open>isnan (sht40_hum_avg data)\<close> and \<open>isnan (sht40_hum_min data)\<close> and \<open>isnan (sht40_hum_max data)\<close>
  shows \<open>\<exists>pre post. mqttPayload client_id dtostrf data = pre @ ''"sht40_humidity":{'' @ nan_members @ ''}'' @ post\<close>
proof (intro exI)
  show \<open>mqttPayload client_id dtostrf data =
      (''{'' @ ''"device":"'' @ client_id @ ''",'' @ ''"start":'' @ dec_int (start_timestamp data) @ '','' @ ''"end":'' @ dec_int (end_timestamp data) @ '','' @ ''"samples":'' @ dec_nat (unat (sample_count data)) @ '','' @ ''"ds18b20":{'' @ statsMembers dtostrf 2 (ds18b20_avg data) (ds18b20_min data) (ds18b20_max data) @ ''},'' @ ''"sht40_temp":{'' @ statsMembers dtostrf 2 (sht40_temp_avg data) (sht40_temp_min data) (sht40_temp_max data) @ ''},'')
      @ ''"sht40_humidity":{'' @ nan_members @ ''}''
      @ ('','' @ ''"soil_moisture":{'' @ statsMembers dtostrf 0 (soil_moisture_avg data) (soil_moisture_min data) (soil_moisture_max data) @ ''}'' @ ''}'')\<close>
    using assms by (simp add: mqttPayload_def statsMembers_def String_float_def nan_members_def)
qed

lemma mqtt_soil_nan:
  assumes \<open>isnan (soil_moisture_avg data)\<close> and \<open>isnan (soil_moisture_min data)\<close> and \<open>isnan (soil_moisture_max data)\<close>
  shows \<open>\<exists>pre post. mqttPayload client_id dtostrf data = pre @ ''"soil_moisture":{'' @ nan_members @ ''}'' @ post\<close>
proof (intro exI)
  show \<open>mqttPayload client_id dtostrf data =
      (''{'' @ ''"device":"'' @ client_id @ ''",'' @ ''"start":'' @ dec_int (start_timestamp data) @ '','' @ ''"end":'' @ dec_int (end_timestamp data) @ '','' @ ''"samples":'' @ dec_nat (unat (sample_count data)) @ '','' @ ''"ds18b20":{'' @ statsMembers dtostrf 2 (ds18b20_avg data) (ds18b20_min data) (ds18b20_max data) @ ''},'' @ ''"sht40_temp":{'' @ statsMembers dtostrf 2 (sht40_temp_avg data) (sht40_temp_min data) (sht40_temp_max data) @ ''},'' @ ''"sht40_humidity":{'' @ statsMembers dtostrf 1 (sht40_hum_avg data) (sht40_hum_min data) (sht40_hum_max data) @ ''},'')
      @ ''"soil_moisture":{'' @ nan_members @ ''}''
      @ (''}'')\<close>
    using assms by (simp add: mqttPayload_def statsMembers_def String_float_def nan_members_def)
qed

lemma json_ds18b20_nan:
  assumes \<open>isnan (ds18b20_avg data)\<close> and \<open>isnan (ds18b20_min data)\<close> and \<open>isnan (ds18b20_max data)\<close>
  shows \<open>\<exists>pre post. aggregatedDataToJSON dtostrf data = pre @ ''"ds18b20":{'' @ nan_members @ ''}'' @ post\<close>
proof (intro exI)
  show \<open>aggregatedDataToJSON dtostrf data =
      (''{'' @ ''"start":"'' @ dec_int (start_timestamp data) @ ''",'' @ ''"end":"'' @ dec_int (end_timestamp data) @ ''",'' @ ''"samples":'' @ dec_nat (unat (sample_count data)) @ '','')
      @ ''"ds18b20":{'' @ nan_members @ ''}''
      @ ('','' @ ''"sht40_temp":{'' @ statsMembers dtostrf 2 (sht40_temp_avg data) (sht40_temp_min data) (sht40_temp_max data) @ ''}'' @ '','' @ ''"sht40_hum":{'' @ statsMembers dtostrf 1 (sht40_hum_avg data) (sht40_hum_min data) (sht40_hum_max data) @ ''}'' @ '','' @ ''"soil":{'' @ statsMembers dtostrf 0 (soil_moisture_avg data) (soil_moisture_min data) (soil_moisture_max data) @ ''}'' @ ''}'')\<close>
    using assms by (simp add: aggregatedDataToJSON_def statsMembers_def String_float_def nan_members_def)
qed

lemma json_sht40_temp_nan:
  assumes \<open>isnan (sht40_temp_avg data)\<close> and \<open>isnan (sht40_temp_min data)\<close> and \<open>isnan (sht40_temp_max data)\<close>
  shows \<open>\<exists>pre post. aggregatedDataToJSON dtostrf data = pre @ ''"sht40_temp":{'' @ nan_members @ ''}'' @ post\<close>
proof (intro exI)
  show \<open>aggregatedDataToJSON dtostrf data =
      (''{'' @ ''"start":"'' @ dec_int (start_timestamp data) @ ''",'' @ ''"end":"'' @ dec_int (end_timestamp data) @ ''",'' @ ''"samples":'' @ dec_nat (unat (sample_count data)) @ '','' @ ''"ds18b20":{'' @ statsMembers dtostrf 2 (ds18b20_avg data) (ds18b20_min data) (ds18b20_max data) @ ''},'')
      @ ''"sht40_temp":{'' @ nan_members @ ''}''
      @ ('','' @ ''"sht40_hum":{'' @ statsMembers dtostrf 1 (sht40_hum_avg data) (sht40_hum_min data) (sht40_hum_max data) @ ''}'' @ '','' @ ''"soil":{'' @ statsMembers dtostrf 0 (soil_moisture_avg data) (soil_moisture_min data) (soil_moisture_max data) @ ''}'' @ ''}'')\<close>
    using assms by (simp add: aggregatedDataToJSON_def statsMembers_def String_float_def nan_members_def)
qed

lemma json_sht40_hum_nan:
  assumes \<open>isnan (sht40_hum_avg data)\<close> and \<open>isnan (sht40_hum_min data)\<close> and \<open>isnan (sht40_hum_max data)\<close>
  shows \<open>\<exists>pre post. aggregatedDataToJSON dtostrf data = pre @ ''"sht40_hum":{'' @ nan_members @ ''}'' @ post\<close>
proof (intro exI)
  show \<open>aggregatedDataToJSON dtostrf data =
      (''{'' @ ''"start":"'' @ dec_int (start_timestamp data) @ ''",'' @ ''"end":"'' @ dec_int (end_timestamp data) @ ''",'' @ ''"samples":'' @ dec_nat (unat (sample_count data)) @ '','' @ ''"ds18b20":{'' @ statsMembers dtostrf 2 (ds18b20_avg data) (ds18b20_min data) (ds18b20_max data) @ ''},'' @ ''"sht40_temp":{'' @ statsMembers dtostrf 2 (sht40_temp_avg data) (sht40_temp_min data) (sht40_temp_max data) @ ''},'')
      @ ''"sht40_hum":{'' @ nan_members @ ''}''
      @ ('','' @ ''"soil":{'' @ statsMembers dtostrf 0 (soil_moisture_avg data) (soil_moisture_min data) (soil_moisture_max data) @ ''}'' @ ''}'')\<close>
    using assms by (simp add: aggregatedDataToJSON_def statsMembers_def String_float_def nan_members_def)
qed

lemma json_soil_nan:
  assumes \<open>isnan (soil_moisture_avg data)\<close> and \<open>isnan (soil_moisture_min data)\<close> and \<open>isnan (soil_moisture_max data)\<close>
  shows \<open>\<exists>pre post. aggregatedDataToJSON dtostrf data = pre @ ''"soil":{'' @ nan_members @ ''}'' @ post\<close>
proof (intro exI)
  show \<open>aggregatedDataToJSON dtostrf data =
      (''{'' @ ''"start":"'' @ dec_int (start_timestamp data) @ ''",'' @ ''"end":"'' @ dec_int (end_timestamp data) @ ''",'' @ ''"samples":'' @ dec_nat (unat (sample_count data)) @ '','' @ ''"ds18b20":{'' @ statsMembers dtostrf 2 (ds18b20_avg data) (ds18b20_min data) (ds18b20_max data) @ ''},'' @ ''"sht40_temp":{'' @ statsMembers dtostrf 2 (sht40_temp_avg data) (sht40_temp_min data) (sht40_temp_max data) @ ''},'' @ ''"sht40_hum":{'' @ statsMembers dtostrf 1 (sht40_hum_avg data) (sht40_hum_min data) (sht40_hum_max data) @ ''},'')
      @ ''"soil":{'' @ nan_members @ ''}''
      @ (''}'')\<close>
    using assms by (simp add: aggregatedDataToJSON_def statsMembers_def String_float_def nan_members_def)
qed

text \<open>
  Claim C10. For every record and every channel whose avg, min and max are NaN, the
  payload that \<^verbatim>\<open>publishDataToMQTT\<close> publishes and the text of \<^verbatim>\<open>aggregatedDataToJSON\<close>
  hold, after the channel's key, the members
  \<^verbatim>\<open>"avg":nan,"min":nan,"max":nan\<close>: the token \<^verbatim>\<open>nan\<close>, which is no JSON number, where the
  CSV row of the same record has empty fields.
\<close>

theorem nan_statistics_serialised_as_nan_text:
  \<open>(isnan (ds18b20_avg data) \<and> isnan (ds18b20_min data) \<and> isnan (ds18b20_max data) \<longrightarrow>
       (\<exists>pre post. mqttPayload client_id dtostrf data
           = pre @ ''"ds18b20":{'' @ nan_members @ ''}'' @ post)
     \<and> (\<exists>pre post. aggregatedDataToJSON dtostrf data
           = pre @ ''"ds18b20":{'' @ nan_members @ ''}'' @ post))
   \<and> (isnan (sht40_temp_avg data) \<and> isnan (sht40_temp_min data) \<and> isnan (sht40_temp_max data) \<longrightarrow>
       (\<exists>pre post. mqttPayload client_id dtostrf data
           = pre @ ''"sht40_temp":{'' @ nan_members @ ''}'' @ post)
     \<and> (\<exists>pre post. aggregatedDataToJSON dtostrf data
           = pre @ ''"sht40_temp":{'' @ nan_members @ ''}'' @ post))
   \<and> (isnan (sht40_hum_avg data) \<and> isnan (sht40_hum_min data) \<and> isnan (sht40_hum_max data) \<longrightarrow>
       (\<exists>pre post. mqttPayload client_id dtostrf data
           = pre @ ''"sht40_humidity":{'' @ nan_members @ ''}'' @ post)
     \<and> (\<exists>pre post. aggregatedDataToJSON dtostrf data
           = pre @ ''"sht40_hum":{'' @ nan_members @ ''}'' @ post))
   \<and> (isnan (soil_moisture_avg data) \<and> isnan (soil_moisture_min data) \<and> isnan (soil_moisture_max data) \<longrightarrow>
       (\<exists>pre post. mqttPayload client_id dtostrf data
           = pre @ ''"soil_moisture":{'' @ nan_members @ ''}'' @ post)
     \<and> (\<exists>pre post. aggregatedDataToJSON dtostrf data
           = pre @ ''"soil":{'' @ nan_members @ ''}'' @ post))\<close>
  by (intro conjI impI; elim conjE)
     (rule mqtt_ds18b20_nan json_ds18b20_nan mqtt_sht40_temp_nan json_sht40_temp_nan
        mqtt_sht40_hum_nan json_sht40_hum_nan mqtt_soil_nan json_soil_nan; assumption)+

text \<open>The payload of a record whose soil channel has no data.\<close>

lemma payload_example:
  \<open>mqttPayload ''esp32c3-logger'' fixed_point (window_record 1700000000) =
     ''{"device":"esp32c3-logger","start":1700000000,"end":1700000059,"samples":60,''
     @ ''"ds18b20":{"avg":21.00,"min":20.00,"max":22.00},''
     @ ''"sht40_temp":{"avg":21.00,"min":20.00,"max":22.00},''
     @ ''"sht40_humidity":{"avg":40.0,"min":39.0,"max":41.0},''
     @ ''"soil_moisture":{"avg":nan,"min":nan,"max":nan}}''\<close>
  by (simp add: mqttPayload_def statsMembers_def String_float_def window_record_def
        dec_int_def fixed_point_def dec_nat_small dec_nat_big digit_char_def)

theorem nan_statistics_serialised_as_nan_text_witness:
  \<open>isnan (soil_moisture_avg (window_record 1700000000))
   \<and> isnan (soil_moisture_min (window_record 1700000000))
   \<and> isnan (soil_moisture_max (window_record 1700000000))
   \<and> (\<exists>pre post. mqttPayload ''esp32c3-logger'' fixed_point (window_record 1700000000)
          = pre @ ''"soil_moisture":{'' @ nan_members @ ''}'' @ post)
   \<and> (\<exists>pre post. aggregatedDataToJSON fixed_point (window_record 1700000000)
          = pre @ ''"soil":{'' @ nan_members @ ''}'' @ post)\<close>
proof -
  have n: \<open>isnan (soil_moisture_avg (window_record 1700000000))\<close>
    \<open>isnan (soil_moisture_min (window_record 1700000000))\<close>
    \<open>isnan (soil_moisture_max (window_record 1700000000))\<close>
    by (simp_all add: window_record_def)
  from nan_statistics_serialised_as_nan_text
         [of \<open>window_record 1700000000\<close> \<open>''esp32c3-logger''\<close> fixed_point] n
  show ?thesis by blast
qed

end
